theory Spec2Isabelle
  imports Complex_Main "HOL-Library.Word" "HOL-Library.Code_Target_Numeral"
begin

unbundle bit_operations_syntax

section \<open>JavaScript strings and the string operations of \<^verbatim>\<open>src/lib/groq.ts\<close>\<close>

text \<open>
  A JavaScript string is a sequence of UTF-16 code units, and \<^verbatim>\<open>.length\<close> counts code
  units. The bytes that \<^verbatim>\<open>reader.read()\<close> yields are a \<^verbatim>\<open>Uint8Array\<close>.
  \<open>js\<close> writes an ASCII literal of the source as a JavaScript string.
\<close>

type_synonym jchar = "16 word"
type_synonym jstring = "jchar list"
type_synonym byte = "8 word"

definition js :: "string \<Rightarrow> jstring" where
  "js s = map of_char s"

text \<open>
  \<^verbatim>\<open>buffer.split('\n')\<close>: the pieces between line feeds. The result is never empty:
  the empty string splits into one empty piece, and a string that ends in a line feed has an
  empty last piece.
\<close>

fun split_nl :: "jstring \<Rightarrow> jstring list" where
  "split_nl [] = [[]]"
| "split_nl (c # cs) =
     (if c = 0x0A then [] # split_nl cs
      else (case split_nl cs of [] \<Rightarrow> [[c]] | l # ls \<Rightarrow> (c # l) # ls))"

text \<open>
  \<^verbatim>\<open>lines.pop() || ''\<close>: the last element (\<^verbatim>\<open>undefined\<close> on an empty array, which
  \<^verbatim>\<open>||\<close> turns into the empty string); \<open>butlast\<close> is what \<^verbatim>\<open>pop\<close> leaves in
  \<^verbatim>\<open>lines\<close>.
\<close>

definition pop_or_empty :: "jstring list \<Rightarrow> jstring" where
  "pop_or_empty lines = (if lines = [] then [] else last lines)"

text \<open>
  \<^verbatim>\<open>String.prototype.trim\<close> removes the code units of WhiteSpace and LineTerminator
  from both ends: TAB, LF, VT, FF, CR, SP, NBSP, the Unicode space separators, LS, PS and
  the byte order mark.
\<close>

definition is_js_space :: "jchar \<Rightarrow> bool" where
  "is_js_space c \<longleftrightarrow>
     c = 0x09 \<or> c = 0x0A \<or> c = 0x0B \<or> c = 0x0C \<or> c = 0x0D \<or> c = 0x20 \<or> c = 0xA0 \<or>
     c = 0x1680 \<or> (0x2000 \<le> c \<and> c \<le> 0x200A) \<or> c = 0x2028 \<or> c = 0x2029 \<or>
     c = 0x202F \<or> c = 0x205F \<or> c = 0x3000 \<or> c = 0xFEFF"

definition trim :: "jstring \<Rightarrow> jstring" where
  "trim s = rev (dropWhile is_js_space (rev (dropWhile is_js_space s)))"

text \<open>\<^verbatim>\<open>trimmedLine.replace(/^data: /, '')\<close>: one leading \<^verbatim>\<open>data: \<close> is removed.\<close>

definition strip_data_prefix :: "jstring \<Rightarrow> jstring" where
  "strip_data_prefix s = (if take 6 s = js ''data: '' then drop 6 s else s)"

section \<open>JSON values and the property accesses of the stream loop\<close>

text \<open>
  The values \<^verbatim>\<open>JSON.parse\<close> returns. A number is kept as the string that
  \<^verbatim>\<open>Number.prototype.toString\<close> gives for it: \<^verbatim>\<open>"0"\<close> for both zeros, so that
  string decides truthiness, and it is what string concatenation appends. An object keeps
  its members in text order. \<open>None\<close> of type \<open>json option\<close> is \<^verbatim>\<open>undefined\<close>.
\<close>

datatype json =
    JNull
  | JBool bool
  | JNum jstring
  | JStr jstring
  | JArr "json list"
  | JObj "(jstring \<times> json) list"

text \<open>
  What the code throws or rejects with. \<open>SyntaxError\<close> and \<open>TypeError\<close> arise inside the
  \<^verbatim>\<open>try\<close> block of the line loop and are caught there. \<open>Thrown r\<close> is a rejection of
  \<^verbatim>\<open>fetch\<close> or of \<^verbatim>\<open>reader.read()\<close> with reason \<open>r\<close>, which the outer
  \<^verbatim>\<open>catch\<close> logs and throws again unchanged.
\<close>

datatype error =
    ApiKeyMissing
  | ResponseNotOk nat jstring "json option"
  | NoResponseBody
  | Thrown jstring
  | SyntaxError
  | TypeError

text \<open>
  Own property lookup: on a repeated member name \<^verbatim>\<open>JSON.parse\<close> keeps the last value.
\<close>

definition own_property :: "(jstring \<times> json) list \<Rightarrow> jstring \<Rightarrow> json option" where
  "own_property kvs k = map_of (rev kvs) k"

text \<open>
  \<open>get_named k v\<close> is \<^verbatim>\<open>v.k\<close> for the names the code reads (\<^verbatim>\<open>choices\<close>,
  \<^verbatim>\<open>delta\<close>, \<^verbatim>\<open>content\<close>, \<^verbatim>\<open>finish_reason\<close>) on a value \<open>v\<close> other than
  \<^verbatim>\<open>null\<close>: only an object can carry them; arrays, strings, numbers and booleans give
  \<^verbatim>\<open>undefined\<close>. \<open>get_index0 v\<close> is \<^verbatim>\<open>v[0]\<close>.
\<close>

fun get_named :: "jstring \<Rightarrow> json \<Rightarrow> json option" where
  "get_named k (JObj kvs) = own_property kvs k"
| "get_named k _ = None"

fun get_index0 :: "json \<Rightarrow> json option" where
  "get_index0 (JArr xs) = (case xs of [] \<Rightarrow> None | x # _ \<Rightarrow> Some x)"
| "get_index0 (JObj kvs) = own_property kvs (js ''0'')"
| "get_index0 (JStr s) = (case s of [] \<Rightarrow> None | c # _ \<Rightarrow> Some (JStr [c]))"
| "get_index0 _ = None"

text \<open>
  \<^verbatim>\<open>data.choices[0]\<close>: reading \<^verbatim>\<open>choices\<close> of \<^verbatim>\<open>null\<close>, or index 0 of
  \<^verbatim>\<open>undefined\<close> or \<^verbatim>\<open>null\<close>, throws a TypeError.
\<close>

definition first_choice :: "json \<Rightarrow> error + json option" where
  "first_choice data =
     (if data = JNull then Inl TypeError
      else (case get_named (js ''choices'') data of
              None \<Rightarrow> Inl TypeError
            | Some choices \<Rightarrow>
                if choices = JNull then Inl TypeError else Inr (get_index0 choices)))"

text \<open>\<^verbatim>\<open>v?.k\<close>: \<^verbatim>\<open>undefined\<close> when \<open>v\<close> is \<^verbatim>\<open>undefined\<close> or \<^verbatim>\<open>null\<close>.\<close>

definition opt_chain :: "json option \<Rightarrow> jstring \<Rightarrow> json option" where
  "opt_chain v k =
     (case v of None \<Rightarrow> None | Some x \<Rightarrow> if x = JNull then None else get_named k x)"

fun truthy :: "json option \<Rightarrow> bool" where
  "truthy None = False"
| "truthy (Some JNull) = False"
| "truthy (Some (JBool b)) = b"
| "truthy (Some (JNum n)) = (n \<noteq> js ''0'' \<and> n \<noteq> js ''NaN'')"
| "truthy (Some (JStr s)) = (s \<noteq> [])"
| "truthy (Some (JArr xs)) = True"
| "truthy (Some (JObj kvs)) = True"

text \<open>
  The string that \<^verbatim>\<open>accumulatedChunks += content\<close> appends. A string is appended as it
  is; the other values go through ToPrimitive: an array is joined with commas (\<^verbatim>\<open>null\<close>
  elements as the empty string), an object is \<^verbatim>\<open>[object Object]\<close>, unless it has a
  member named \<^verbatim>\<open>toString\<close>, which is not callable and leaves no primitive:
  a TypeError.
\<close>

fun to_string :: "json \<Rightarrow> error + jstring"
  and join_elements :: "json list \<Rightarrow> error + jstring" where
  "to_string JNull = Inr (js ''null'')"
| "to_string (JBool b) = Inr (if b then js ''true'' else js ''false'')"
| "to_string (JNum n) = Inr n"
| "to_string (JStr s) = Inr s"
| "to_string (JArr xs) = join_elements xs"
| "to_string (JObj kvs) =
     (if own_property kvs (js ''toString'') \<noteq> None then Inl TypeError
      else Inr (js ''[object Object]''))"
| "join_elements [] = Inr []"
| "join_elements (x # xs) =
     (case (if x = JNull then Inr [] else to_string x) of
        Inl e \<Rightarrow> Inl e
      | Inr s \<Rightarrow>
          if xs = [] then Inr s
          else (case join_elements xs of
                  Inl e \<Rightarrow> Inl e
                | Inr r \<Rightarrow> Inr (s @ js '','' @ r)))"

section \<open>Messages, options and the request\<close>

datatype role = User | Assistant | System

record ChatMessage =
  role :: role
  content :: jstring

text \<open>
  \<open>None\<close> is an option the caller left out, as both callers in the repository do with all
  four. A property that is present with the value \<^verbatim>\<open>undefined\<close> is not modelled.
\<close>

record CompletionOptions =
  model :: "jstring option"
  temperature :: "rat option"
  maxTokens :: "nat option"
  systemPrompt :: "jstring option"

record config =
  cfg_model :: jstring
  cfg_temperature :: rat
  cfg_maxTokens :: nat
  cfg_systemPrompt :: jstring

definition defaultSystemPrompt :: jstring where
  "defaultSystemPrompt =
     js ''You are an engaging and adaptive AI study buddy. Guidelines:'' @ [0x0A] @
     js ''  - Be natural and conversational'' @ [0x0A] @
     js ''  - Never show formatting instructions or meta-text'' @ [0x0A] @
     js ''  - Never start responses with \"AI:\" or similar prefixes'' @ [0x0A] @
     js ''  - Don't show asterisks (*) or formatting markers'' @ [0x0A] @
     js ''  - Don't describe your actions in text'' @ [0x0A] @
     js ''  - If the user is inactive, don't suggest follow-up messages'' @ [0x0A] @
     js ''  - Keep responses focused on the user's questions and learning goals'' @ [0x0A] @
     js ''  - Use emojis naturally but don't overdo it'' @ [0x0A] @
     js ''  - Always respond directly to what the user says'' @ [0x0A] @
     js ''  - Stay in character as a helpful study buddy''"

definition defaultOptions :: config where
  "defaultOptions =
     \<lparr>cfg_model = js ''mixtral-8x7b-32768'', cfg_temperature = 8 / 10,
      cfg_maxTokens = 2048, cfg_systemPrompt = defaultSystemPrompt\<rparr>"

text \<open>\<^verbatim>\<open>{ ...defaultOptions, ...options }\<close>\<close>

definition merge_options :: "CompletionOptions \<Rightarrow> config" where
  "merge_options options =
     \<lparr>cfg_model = (case model options of None \<Rightarrow> cfg_model defaultOptions | Some m \<Rightarrow> m),
      cfg_temperature =
        (case temperature options of None \<Rightarrow> cfg_temperature defaultOptions | Some t \<Rightarrow> t),
      cfg_maxTokens =
        (case maxTokens options of None \<Rightarrow> cfg_maxTokens defaultOptions | Some n \<Rightarrow> n),
      cfg_systemPrompt =
        (case systemPrompt options of None \<Rightarrow> cfg_systemPrompt defaultOptions | Some p \<Rightarrow> p)\<rparr>"

text \<open>
  \<^verbatim>\<open>/^(hi|hello|hey|greetings|sup)/i.test(s)\<close>: \<open>s\<close> starts with one of the words.
  Without the \<^verbatim>\<open>u\<close> flag the \<^verbatim>\<open>i\<close> flag compares upper-cased code units and never
  maps a code unit above 127 to an ASCII one, so only the ASCII letters fold.
\<close>

definition ascii_lower :: "jchar \<Rightarrow> jchar" where
  "ascii_lower c = (if 0x41 \<le> c \<and> c \<le> 0x5A then c + 0x20 else c)"

definition starts_with_ci :: "jstring \<Rightarrow> jstring \<Rightarrow> bool" where
  "starts_with_ci w s \<longleftrightarrow> map ascii_lower (take (length w) s) = w"

definition greeting_words :: "jstring list" where
  "greeting_words = [js ''hi'', js ''hello'', js ''hey'', js ''greetings'', js ''sup'']"

definition greeting_test :: "jstring \<Rightarrow> bool" where
  "greeting_test s \<longleftrightarrow> list_ex (\<lambda>w. starts_with_ci w s) greeting_words"

definition isGreeting :: "ChatMessage list \<Rightarrow> bool" where
  "isGreeting messages \<longleftrightarrow>
     (case messages of [m] \<Rightarrow> greeting_test (content m) | _ \<Rightarrow> False)"

definition systemMessage :: "config \<Rightarrow> ChatMessage list \<Rightarrow> ChatMessage" where
  "systemMessage cfg messages =
     \<lparr>role = System,
      content = (if isGreeting messages then js ''Respond with a greeting.''
                 else cfg_systemPrompt cfg)\<rparr>"

definition apiMessages :: "config \<Rightarrow> ChatMessage list \<Rightarrow> ChatMessage list" where
  "apiMessages cfg messages =
     map (\<lambda>msg. \<lparr>role = role msg, content = trim (content msg)\<rparr>)
       (systemMessage cfg messages # messages)"

record request =
  req_url :: jstring
  req_bearer :: jstring
  req_model :: jstring
  req_messages :: "ChatMessage list"
  req_temperature :: rat
  req_max_tokens :: nat
  req_stream :: bool

definition API_URL :: jstring where
  "API_URL = js ''https://api.groq.com/openai/v1/chat/completions''"

definition build_request :: "jstring \<Rightarrow> config \<Rightarrow> ChatMessage list \<Rightarrow> request" where
  "build_request key cfg messages =
     \<lparr>req_url = API_URL, req_bearer = key, req_model = cfg_model cfg,
      req_messages = apiMessages cfg messages, req_temperature = cfg_temperature cfg,
      req_max_tokens = cfg_maxTokens cfg, req_stream = True\<rparr>"

section \<open>The response, the environment and the stream loop\<close>

text \<open>
  A body is read as the chunks that \<^verbatim>\<open>reader.read()\<close> yields, followed either by
  \<^verbatim>\<open>done\<close> or by a rejected read (a body that never ends, on which the promise stays
  pending, is not modelled). \<open>res_body = None\<close> is a response without a body
  (\<^verbatim>\<open>response.body?.getReader()\<close> is \<^verbatim>\<open>undefined\<close>); \<open>res_json\<close> is what
  \<^verbatim>\<open>response.json().catch(() => null)\<close> gives, \<open>None\<close> for \<^verbatim>\<open>null\<close>.
\<close>

datatype read_end = Done | Rejects jstring

record body_stream =
  chunks :: "byte list list"
  ending :: read_end

record response =
  res_ok :: bool
  res_status :: nat
  res_statusText :: jstring
  res_json :: "json option"
  res_body :: "body_stream option"

text \<open>
  What the module takes from its surroundings: the key from the build environment, and the
  platform functions \<^verbatim>\<open>fetch\<close>, \<^verbatim>\<open>TextDecoder.decode\<close> (called without the
  \<^verbatim>\<open>stream\<close> option, so each call decodes its chunk on its own) and
  \<^verbatim>\<open>JSON.parse\<close> (\<open>None\<close> when it throws a SyntaxError).
\<close>

record env =
  GROQ_API_KEY :: "jstring option"
  fetch :: "request \<Rightarrow> error + response"
  decode :: "byte list \<Rightarrow> jstring"
  JSON_parse :: "jstring \<Rightarrow> json option"

text \<open>
  The variables of the loop that a line can change, together with the state \<open>caller\<close> of
  whoever passed \<^verbatim>\<open>onChunk\<close>. The callback is a function on that state; it is assumed
  to return normally, as the callbacks of \<^verbatim>\<open>getCompletionSync\<close> and of both callers in
  the repository do. The 50 ms \<^verbatim>\<open>sleep\<close> before a callback and the console output
  change no value and are left out.
\<close>

record 's assembly =
  caller :: 's
  fullResponse :: jstring
  accumulatedChunks :: jstring

text \<open>
  \<^verbatim>\<open>data.choices[0].finish_reason === 'stop'\<close>, evaluated only after a truthy content
  was read through the same \<^verbatim>\<open>data.choices[0]\<close>, which is then neither
  \<^verbatim>\<open>undefined\<close> nor \<^verbatim>\<open>null\<close>.
\<close>

definition finish_is_stop :: "json option \<Rightarrow> bool" where
  "finish_is_stop choice \<longleftrightarrow>
     (case choice of None \<Rightarrow> False
      | Some c \<Rightarrow> get_named (js ''finish_reason'') c = Some (JStr (js ''stop'')))"

text \<open>
  The body of the \<^verbatim>\<open>try\<close> block for one trimmed line. Every exception in it
  (\<^verbatim>\<open>JSON.parse\<close>, \<^verbatim>\<open>data.choices[0]\<close>, the string conversion) is thrown before
  any variable is assigned, so \<open>Inl\<close> leaves the state as it was.
\<close>

definition try_line ::
  "env \<Rightarrow> (jstring \<Rightarrow> 's \<Rightarrow> 's) \<Rightarrow> 's assembly \<Rightarrow> jstring \<Rightarrow> error + 's assembly" where
  "try_line e onChunk st trimmedLine =
     (let jsonStr = strip_data_prefix trimmedLine in
      case JSON_parse e jsonStr of
        None \<Rightarrow> Inl SyntaxError
      | Some data \<Rightarrow>
          (case first_choice data of
             Inl err \<Rightarrow> Inl err
           | Inr choice \<Rightarrow>
               (let c = opt_chain (opt_chain choice (js ''delta'')) (js ''content'');
                    content = (if truthy c then c else Some (JStr []))
                in if truthy content then
                     (case content of
                        None \<Rightarrow> Inr st
                      | Some v \<Rightarrow>
                          (case to_string v of
                             Inl err \<Rightarrow> Inl err
                           | Inr s \<Rightarrow>
                               (let acc = accumulatedChunks st @ s in
                                if length acc \<ge> 4 \<or> finish_is_stop choice then
                                  Inr \<lparr>caller = onChunk acc (caller st),
                                       fullResponse = fullResponse st @ acc,
                                       accumulatedChunks = []\<rparr>
                                else Inr (st\<lparr>accumulatedChunks := acc\<rparr>))))
                   else Inr st)))"

definition process_line ::
  "env \<Rightarrow> (jstring \<Rightarrow> 's \<Rightarrow> 's) \<Rightarrow> 's assembly \<Rightarrow> jstring \<Rightarrow> 's assembly" where
  "process_line e onChunk st line =
     (let trimmedLine = trim line in
      if trimmedLine = [] \<or> trimmedLine = js ''data: [DONE]'' then st
      else (case try_line e onChunk st trimmedLine of
              Inl err \<Rightarrow> st
            | Inr st' \<Rightarrow> st'))"

text \<open>
  The \<^verbatim>\<open>while (true)\<close> loop over the reads. A rejected read leaves the loop through the
  outer \<^verbatim>\<open>catch\<close>: the local variables are gone, the effects of the callbacks made so
  far remain.
\<close>

fun read_loop ::
  "env \<Rightarrow> (jstring \<Rightarrow> 's \<Rightarrow> 's) \<Rightarrow> byte list list \<Rightarrow> read_end \<Rightarrow> jstring \<Rightarrow> 's assembly
     \<Rightarrow> (error \<times> 's) + 's assembly" where
  "read_loop e onChunk [] Done buffer st = Inr st"
| "read_loop e onChunk [] (Rejects r) buffer st = Inl (Thrown r, caller st)"
| "read_loop e onChunk (v # rest) fin buffer st =
     (let chunk = decode e v;
          buffer = buffer @ chunk;
          lines = split_nl buffer
      in read_loop e onChunk rest fin (pop_or_empty lines)
           (foldl (process_line e onChunk) st (butlast lines)))"

text \<open>
  The block after the loop (\<^verbatim>\<open>// Send any remaining chunks\<close>) and the
  \<^verbatim>\<open>return fullResponse\<close> that resolves the promise.
\<close>

definition send_remaining ::
  "(jstring \<Rightarrow> 's \<Rightarrow> 's) \<Rightarrow> 's assembly \<Rightarrow> 's \<times> (error + jstring)" where
  "send_remaining onChunk st =
     (if accumulatedChunks st \<noteq> [] then
        (onChunk (accumulatedChunks st) (caller st),
         Inr (fullResponse st @ accumulatedChunks st))
      else (caller st, Inr (fullResponse st)))"

definition initial :: "'s \<Rightarrow> 's assembly" where
  "initial s = \<lparr>caller = s, fullResponse = [], accumulatedChunks = []\<rparr>"

text \<open>
  \<^verbatim>\<open>!GROQ_API_KEY\<close> holds for a key that is not set and for the empty string.
\<close>

definition getChatCompletion ::
  "env \<Rightarrow> ChatMessage list \<Rightarrow> (jstring \<Rightarrow> 's \<Rightarrow> 's) \<Rightarrow> 's \<Rightarrow> CompletionOptions
     \<Rightarrow> 's \<times> (error + jstring)" where
  "getChatCompletion e messages onChunk s options =
     (case GROQ_API_KEY e of
        None \<Rightarrow> (s, Inl ApiKeyMissing)
      | Some key \<Rightarrow>
          if key = [] then (s, Inl ApiKeyMissing)
          else
            (let cfg = merge_options options in
             case fetch e (build_request key cfg messages) of
               Inl err \<Rightarrow> (s, Inl err)
             | Inr response \<Rightarrow>
                 if \<not> res_ok response then
                   (s, Inl (ResponseNotOk (res_status response) (res_statusText response)
                              (if truthy (res_json response) then res_json response else None)))
                 else
                   (case res_body response of
                      None \<Rightarrow> (s, Inl NoResponseBody)
                    | Some reader \<Rightarrow>
                        (case read_loop e onChunk (chunks reader) (ending reader) []
                                (initial s) of
                           Inl (err, s') \<Rightarrow> (s', Inl err)
                         | Inr st \<Rightarrow> send_remaining onChunk st))))"

text \<open>
  \<^verbatim>\<open>getCompletionSync\<close> passes the callback \<^verbatim>\<open>(chunk) => { result += chunk; }\<close> on
  the initially empty \<^verbatim>\<open>result\<close>, and returns \<^verbatim>\<open>result\<close> once the awaited call has
  resolved; a rejection passes through.
\<close>

definition getCompletionSync :: "env \<Rightarrow> ChatMessage list \<Rightarrow> CompletionOptions \<Rightarrow> error + jstring" where
  "getCompletionSync e messages options =
     (case getChatCompletion e messages (\<lambda>chunk result. result @ chunk) [] options of
        (result, Inl err) \<Rightarrow> Inl err
      | (result, Inr full) \<Rightarrow> Inr result)"


section \<open>The platform functions on concrete inputs\<close>

text \<open>
  The UTF-8 decoder of the Encoding Standard, as \<^verbatim>\<open>new TextDecoder().decode(value)\<close>
  runs it: a fresh decoder for every call, malformed or truncated sequences replaced by
  U+FFFD, one leading byte order mark removed, code points above U+FFFF written as a
  surrogate pair.
\<close>

record utf8_state =
  code_point :: nat
  bytes_needed :: nat
  lower_boundary :: nat
  upper_boundary :: nat

definition utf8_init :: utf8_state where
  "utf8_init = \<lparr>code_point = 0, bytes_needed = 0, lower_boundary = 0x80, upper_boundary = 0xBF\<rparr>"

definition utf8_lead :: "nat \<Rightarrow> nat list \<times> utf8_state" where
  "utf8_lead b =
     (if b \<le> 0x7F then ([b], utf8_init)
      else if 0xC2 \<le> b \<and> b \<le> 0xDF then
        ([], \<lparr>code_point = b mod 32, bytes_needed = 1,
              lower_boundary = 0x80, upper_boundary = 0xBF\<rparr>)
      else if 0xE0 \<le> b \<and> b \<le> 0xEF then
        ([], \<lparr>code_point = b mod 16, bytes_needed = 2,
              lower_boundary = (if b = 0xE0 then 0xA0 else 0x80),
              upper_boundary = (if b = 0xED then 0x9F else 0xBF)\<rparr>)
      else if 0xF0 \<le> b \<and> b \<le> 0xF4 then
        ([], \<lparr>code_point = b mod 8, bytes_needed = 3,
              lower_boundary = (if b = 0xF0 then 0x90 else 0x80),
              upper_boundary = (if b = 0xF4 then 0x8F else 0xBF)\<rparr>)
      else ([0xFFFD], utf8_init))"

definition utf8_step :: "utf8_state \<Rightarrow> nat \<Rightarrow> nat list \<times> utf8_state" where
  "utf8_step st b =
     (if bytes_needed st = 0 then utf8_lead b
      else if b < lower_boundary st \<or> upper_boundary st < b then
        (case utf8_lead b of (out, st') \<Rightarrow> (0xFFFD # out, st'))
      else
        (let cp = code_point st * 64 + b mod 64 in
         if bytes_needed st = 1 then ([cp], utf8_init)
         else ([], \<lparr>code_point = cp, bytes_needed = bytes_needed st - 1,
                    lower_boundary = 0x80, upper_boundary = 0xBF\<rparr>)))"

fun utf8_run :: "utf8_state \<Rightarrow> nat list \<Rightarrow> nat list" where
  "utf8_run st [] = (if bytes_needed st \<noteq> 0 then [0xFFFD] else [])"
| "utf8_run st (b # bs) = (case utf8_step st b of (out, st') \<Rightarrow> out @ utf8_run st' bs)"

definition strip_bom :: "nat list \<Rightarrow> nat list" where
  "strip_bom cps = (case cps of [] \<Rightarrow> [] | c # cs \<Rightarrow> if c = 0xFEFF then cs else c # cs)"

definition utf16_units :: "nat \<Rightarrow> jstring" where
  "utf16_units c =
     (if c < 0x10000 then [of_nat c]
      else [of_nat (0xD800 + (c - 0x10000) div 1024), of_nat (0xDC00 + (c - 0x10000) mod 1024)])"

definition TextDecoder_decode :: "byte list \<Rightarrow> jstring" where
  "TextDecoder_decode bytes = concat (map utf16_units (strip_bom (utf8_run utf8_init (map unat bytes))))"

text \<open>
  \<^verbatim>\<open>JSON.parse\<close> by recursive descent over the JSON grammar. The first argument of the
  three parsing functions bounds the recursion: it starts as the text itself, and every nested
  call drops one code unit of it.
\<close>

definition is_json_ws :: "jchar \<Rightarrow> bool" where
  "is_json_ws c \<longleftrightarrow> c = 0x20 \<or> c = 0x09 \<or> c = 0x0A \<or> c = 0x0D"

definition skip_ws :: "jstring \<Rightarrow> jstring" where
  "skip_ws s = dropWhile is_json_ws s"

definition hex_digit :: "jchar \<Rightarrow> jchar option" where
  "hex_digit c =
     (if 0x30 \<le> c \<and> c \<le> 0x39 then Some (c - 0x30)
      else if 0x41 \<le> c \<and> c \<le> 0x46 then Some (c - 0x37)
      else if 0x61 \<le> c \<and> c \<le> 0x66 then Some (c - 0x57)
      else None)"

definition hex4 :: "jchar \<Rightarrow> jchar \<Rightarrow> jchar \<Rightarrow> jchar \<Rightarrow> jchar option" where
  "hex4 a b c d =
     (case (hex_digit a, hex_digit b, hex_digit c, hex_digit d) of
        (Some x, Some y, Some z, Some w) \<Rightarrow> Some (((x * 16 + y) * 16 + z) * 16 + w)
      | _ \<Rightarrow> None)"

definition unescape :: "jchar \<Rightarrow> jchar option" where
  "unescape c =
     (if c = 0x22 \<or> c = 0x5C \<or> c = 0x2F then Some c
      else if c = 0x62 then Some 0x08
      else if c = 0x66 then Some 0x0C
      else if c = 0x6E then Some 0x0A
      else if c = 0x72 then Some 0x0D
      else if c = 0x74 then Some 0x09
      else None)"

definition cons_result :: "jchar \<Rightarrow> (jstring \<times> jstring) option \<Rightarrow> (jstring \<times> jstring) option" where
  "cons_result c r = (case r of None \<Rightarrow> None | Some (s, rest) \<Rightarrow> Some (c # s, rest))"

text \<open>The characters of a string after its opening quote, and the text after its closing quote.\<close>

fun parse_string_body :: "jstring \<Rightarrow> (jstring \<times> jstring) option" where
  "parse_string_body [] = None"
| "parse_string_body (c # cs) =
     (if c = 0x22 then Some ([], cs)
      else if c = 0x5C then
        (case cs of
           [] \<Rightarrow> None
         | e # cs' \<Rightarrow>
             if e = 0x75 then
               (case cs' of
                  h1 # h2 # h3 # h4 # r \<Rightarrow>
                    (case hex4 h1 h2 h3 h4 of
                       None \<Rightarrow> None
                     | Some u \<Rightarrow> cons_result u (parse_string_body r))
                | _ \<Rightarrow> None)
             else
               (case unescape e of
                  None \<Rightarrow> None
                | Some u \<Rightarrow> cons_result u (parse_string_body cs')))
      else if c < 0x20 then None
      else cons_result c (parse_string_body cs))"

definition is_digit :: "jchar \<Rightarrow> bool" where
  "is_digit c \<longleftrightarrow> 0x30 \<le> c \<and> c \<le> 0x39"

text \<open>
  The string of a number. \<^verbatim>\<open>JSON.parse\<close> gives the double nearest to the literal
  \<open>m * 10 ^ e\<close> (ties to even, \<^verbatim>\<open>Infinity\<close> from \<open>2 ^ 1024\<close> on, zero below half the
  smallest subnormal), and \<^verbatim>\<open>Number.prototype.toString\<close> prints the shortest decimal
  digits that round back to that double, the closest to it when several do, in plain
  notation for a decimal exponent from -6 to 21 and with an exponent otherwise.
  \<open>count_digits b n\<close> is the number of digits of \<open>n\<close> in base \<open>b\<close>, \<open>floor_log b p q\<close>
  the largest \<open>l\<close> with \<open>b ^ l \<le> p / q\<close>, and \<open>round_half_even a b\<close> the integer nearest to
  \<open>a / b\<close>; a double is the integer \<open>M\<close> times \<open>2 ^ E\<close> with \<open>M < 2 ^ 53\<close> and
  \<open>-1074 \<le> E \<le> 971\<close>.
\<close>

fun count_digits :: "nat \<Rightarrow> nat \<Rightarrow> nat" where
  "count_digits b n = (if b < 2 \<or> n = 0 then 0 else Suc (count_digits b (n div b)))"

fun decimal_digits :: "nat \<Rightarrow> jstring" where
  "decimal_digits n =
     (if n < 10 then [0x30 + of_nat n]
      else decimal_digits (n div 10) @ [0x30 + of_nat (n mod 10)])"

definition digits_value :: "jstring \<Rightarrow> nat" where
  "digits_value ds = foldl (\<lambda>n d. 10 * n + unat (d - 0x30)) 0 ds"

definition floor_log_near :: "int \<Rightarrow> nat \<Rightarrow> nat \<Rightarrow> nat \<Rightarrow> int" where
  "floor_log_near t b p q = (if q * b ^ nat t \<le> p * b ^ nat (- t) then t else t - 1)"

definition floor_log :: "nat \<Rightarrow> nat \<Rightarrow> nat \<Rightarrow> int" where
  "floor_log b p q = floor_log_near (int (count_digits b p) - int (count_digits b q)) b p q"

datatype double = Zero | Infinite | Finite nat int

definition round_half_even :: "nat \<Rightarrow> nat \<Rightarrow> nat" where
  "round_half_even a b =
     (if b < 2 * (a mod b) \<or> (2 * (a mod b) = b \<and> odd (a div b)) then a div b + 1
      else a div b)"

definition pack_double :: "nat \<Rightarrow> int \<Rightarrow> double" where
  "pack_double M E =
     (if M = 0 then Zero
      else if M = 2 ^ 53 then (if 971 < E + 1 then Infinite else Finite (2 ^ 52) (E + 1))
      else if 971 < E then Infinite
      else Finite M E)"

definition round_at :: "int \<Rightarrow> nat \<Rightarrow> nat \<Rightarrow> double" where
  "round_at E p q = pack_double (round_half_even (p * 2 ^ nat (- E)) (q * 2 ^ nat E)) E"

definition round_to_double :: "nat \<Rightarrow> nat \<Rightarrow> double" where
  "round_to_double p q = round_at (max (floor_log 2 p q - 52) (- 1074)) p q"

text \<open>
  \<open>shortest_from k\<close> looks for the shortest digits from \<open>k\<close> digits on: the two
  \<open>k\<close>-digit decimals next to the double are tried, and 17 digits always suffice. The
  result \<open>(c, t)\<close> stands for \<open>c * 10 ^ t\<close>.
\<close>

definition candidate_ok :: "nat \<Rightarrow> int \<Rightarrow> nat \<Rightarrow> int \<Rightarrow> bool" where
  "candidate_ok M E c t \<longleftrightarrow>
     0 < c \<and> round_to_double (c * 10 ^ nat t) (10 ^ nat (- t)) = Finite M E"

definition choose_candidate :: "bool \<Rightarrow> bool \<Rightarrow> nat \<Rightarrow> nat \<Rightarrow> nat \<Rightarrow> nat option" where
  "choose_candidate lo_ok hi_ok lo r den =
     (if lo_ok \<and> hi_ok then
        Some (if 2 * r < den then lo
              else if den < 2 * r then lo + 1
              else if even lo then lo else lo + 1)
      else if lo_ok then Some lo
      else if hi_ok then Some (lo + 1)
      else None)"

definition try_digits :: "nat \<Rightarrow> int \<Rightarrow> nat \<Rightarrow> nat \<Rightarrow> int \<Rightarrow> nat option" where
  "try_digits M E num den t =
     choose_candidate (candidate_ok M E (num div den) t) (candidate_ok M E (num div den + 1) t)
       (num div den) (num mod den) den"

function shortest_from :: "nat \<Rightarrow> nat \<Rightarrow> int \<Rightarrow> int \<Rightarrow> nat \<times> int" where
  "shortest_from k M E n =
     (case try_digits M E (M * 2 ^ nat E * 10 ^ nat (int k - n))
             (2 ^ nat (- E) * 10 ^ nat (n - int k)) (n - int k) of
        Some c \<Rightarrow> (c, n - int k)
      | None \<Rightarrow>
          if 17 \<le> k then
            ((M * 2 ^ nat E * 10 ^ nat (int k - n)) div (2 ^ nat (- E) * 10 ^ nat (n - int k)),
             n - int k)
          else shortest_from (k + 1) M E n)"
  by pat_completeness auto
termination
  by (relation "measure (\<lambda>(k, M, E, n). 17 - k)") auto

text \<open>
  The digits \<open>ds\<close> with the decimal point after the first \<open>n\<close> of them, as
  \<^verbatim>\<open>Number::toString\<close> lays them out.
\<close>

fun strip_zeros :: "nat \<Rightarrow> nat" where
  "strip_zeros c = (if c = 0 \<or> c mod 10 \<noteq> 0 then c else strip_zeros (c div 10))"

definition format_digits :: "jstring \<Rightarrow> int \<Rightarrow> jstring" where
  "format_digits ds n =
     (if int (length ds) \<le> n \<and> n \<le> 21 then ds @ replicate (nat (n - int (length ds))) 0x30
      else if 0 < n \<and> n \<le> 21 then take (nat n) ds @ [0x2E] @ drop (nat n) ds
      else if - 6 < n \<and> n \<le> 0 then [0x30, 0x2E] @ replicate (nat (- n)) 0x30 @ ds
      else (if length ds = 1 then ds else take 1 ds @ [0x2E] @ drop 1 ds) @ [0x65] @
           (if n - 1 < 0 then [0x2D] else [0x2B]) @ decimal_digits (nat (abs (n - 1))))"

fun format_number :: "nat \<times> int \<Rightarrow> jstring" where
  "format_number (c, t) =
     format_digits (decimal_digits (strip_zeros c)) (int (count_digits 10 c) + t)"

fun double_to_string :: "double \<Rightarrow> jstring" where
  "double_to_string Zero = js ''0''"
| "double_to_string Infinite = js ''Infinity''"
| "double_to_string (Finite M E) =
     format_number (shortest_from 1 M E (floor_log 10 (M * 2 ^ nat E) (2 ^ nat (- E)) + 1))"

definition number_to_string :: "nat \<Rightarrow> int \<Rightarrow> jstring" where
  "number_to_string m e =
     (if m = 0 then js ''0''
      else if 310 < int (count_digits 10 m) + e then js ''Infinity''
      else if int (count_digits 10 m) + e < - 330 then js ''0''
      else double_to_string (round_to_double (m * 10 ^ nat e) (10 ^ nat (- e))))"

declare count_digits.simps [simp del] decimal_digits.simps [simp del]
  shortest_from.simps [simp del] strip_zeros.simps [simp del]

text \<open>
  A number literal at the head of \<open>s\<close>: an optional minus, an integer part without a
  leading zero, an optional fraction and an optional exponent, each with at least one digit.
  The result is the string of the number (\<^verbatim>\<open>-0\<close> prints as \<^verbatim>\<open>0\<close>) and the text after
  the literal.
\<close>

definition parse_number :: "jstring \<Rightarrow> (jstring \<times> jstring) option" where
  "parse_number s =
     (let neg = (take 1 s = [0x2D]);
          s1 = (if neg then drop 1 s else s);
          digits = takeWhile is_digit s1;
          r1 = dropWhile is_digit s1;
          has_frac = (take 1 r1 = [0x2E]);
          frac = (if has_frac then takeWhile is_digit (drop 1 r1) else []);
          r2 = (if has_frac then dropWhile is_digit (drop 1 r1) else r1);
          has_exp = (take 1 r2 = [0x65] \<or> take 1 r2 = [0x45]);
          exp_neg = (take 1 (drop 1 r2) = [0x2D]);
          r3 = (if take 1 (drop 1 r2) = [0x2D] \<or> take 1 (drop 1 r2) = [0x2B]
                then drop 2 r2 else drop 1 r2);
          exp_digits = takeWhile is_digit r3;
          e = (if has_exp
               then (if exp_neg then - int (digits_value exp_digits)
                     else int (digits_value exp_digits))
               else 0)
      in if digits = [] \<or> (length digits > 1 \<and> take 1 digits = [0x30]) then None
         else if has_frac \<and> frac = [] then None
         else if has_exp \<and> exp_digits = [] then None
         else
           (let str = number_to_string (digits_value (digits @ frac)) (e - int (length frac))
            in Some (if neg \<and> str \<noteq> js ''0'' then 0x2D # str else str,
                     if has_exp then dropWhile is_digit r3 else r2)))"

fun parse_value :: "jstring \<Rightarrow> jstring \<Rightarrow> (json \<times> jstring) option"
  and parse_elements :: "jstring \<Rightarrow> jstring \<Rightarrow> (json list \<times> jstring) option"
  and parse_members :: "jstring \<Rightarrow> jstring \<Rightarrow> ((jstring \<times> json) list \<times> jstring) option" where
  "parse_value [] s = None"
| "parse_value (f # n) s =
     (case skip_ws s of
        [] \<Rightarrow> None
      | c # cs \<Rightarrow>
          if c = 0x22 then
            (case parse_string_body cs of None \<Rightarrow> None | Some (str, r) \<Rightarrow> Some (JStr str, r))
          else if c = 0x5B then
            (if take 1 (skip_ws cs) = [0x5D] then Some (JArr [], drop 1 (skip_ws cs))
             else (case parse_elements n cs of None \<Rightarrow> None | Some (vs, r) \<Rightarrow> Some (JArr vs, r)))
          else if c = 0x7B then
            (if take 1 (skip_ws cs) = [0x7D] then Some (JObj [], drop 1 (skip_ws cs))
             else (case parse_members n cs of None \<Rightarrow> None | Some (kvs, r) \<Rightarrow> Some (JObj kvs, r)))
          else if take 4 (c # cs) = js ''true'' then Some (JBool True, drop 4 (c # cs))
          else if take 5 (c # cs) = js ''false'' then Some (JBool False, drop 5 (c # cs))
          else if take 4 (c # cs) = js ''null'' then Some (JNull, drop 4 (c # cs))
          else (case parse_number (c # cs) of None \<Rightarrow> None | Some (num, r) \<Rightarrow> Some (JNum num, r)))"
| "parse_elements [] s = None"
| "parse_elements (f # n) s =
     (case parse_value n s of
        None \<Rightarrow> None
      | Some (v, r) \<Rightarrow>
          (case skip_ws r of
             [] \<Rightarrow> None
           | c # cs \<Rightarrow>
               if c = 0x5D then Some ([v], cs)
               else if c = 0x2C then
                 (case parse_elements n cs of None \<Rightarrow> None | Some (vs, r') \<Rightarrow> Some (v # vs, r'))
               else None))"
| "parse_members [] s = None"
| "parse_members (f # n) s =
     (case skip_ws s of
        [] \<Rightarrow> None
      | q # s1 \<Rightarrow>
          if q \<noteq> 0x22 then None
          else
            (case parse_string_body s1 of
               None \<Rightarrow> None
             | Some (k, s2) \<Rightarrow>
                 (case skip_ws s2 of
                    [] \<Rightarrow> None
                  | colon # s3 \<Rightarrow>
                      if colon \<noteq> 0x3A then None
                      else
                        (case parse_value n s3 of
                           None \<Rightarrow> None
                         | Some (v, r) \<Rightarrow>
                             (case skip_ws r of
                                [] \<Rightarrow> None
                              | c # cs \<Rightarrow>
                                  if c = 0x7D then Some ([(k, v)], cs)
                                  else if c = 0x2C then
                                    (case parse_members n cs of
                                       None \<Rightarrow> None
                                     | Some (kvs, r') \<Rightarrow> Some ((k, v) # kvs, r'))
                                  else None)))))"

definition parse_json :: "jstring \<Rightarrow> json option" where
  "parse_json s =
     (case parse_value (0 # s) s of
        None \<Rightarrow> None
      | Some (v, r) \<Rightarrow> if skip_ws r = [] then Some v else None)"

text \<open>
  A browser whose key is set and whose \<^verbatim>\<open>fetch\<close> answers every request with the
  response \<open>r\<close>; \<open>ascii\<close> writes the bytes of an ASCII text, \<open>ok_response\<close> is a
  200 response with the given body.
\<close>

definition browser :: "response \<Rightarrow> env" where
  "browser r =
     \<lparr>GROQ_API_KEY = Some (js ''gsk_test''), fetch = (\<lambda>req. Inr r),
      decode = TextDecoder_decode, JSON_parse = parse_json\<rparr>"

definition ascii :: "string \<Rightarrow> byte list" where
  "ascii s = map of_char s"

definition ok_response :: "byte list list \<Rightarrow> read_end \<Rightarrow> response" where
  "ok_response cs fin =
     \<lparr>res_ok = True, res_status = 200, res_statusText = js ''OK'', res_json = None,
      res_body = Some \<lparr>chunks = cs, ending = fin\<rparr>\<rparr>"

definition line_bytes :: "string \<Rightarrow> byte list" where
  "line_bytes s = ascii s @ [0x0A]"

definition wire :: "string list \<Rightarrow> byte list" where
  "wire ls = concat (map line_bytes ls)"

text \<open>
  A record of the wire format, \<^verbatim>\<open>data: <JSON>\<close> with the shape of the interface
  \<^verbatim>\<open>StreamChunk\<close>, for a content and a finish reason given as JSON text.
\<close>

definition record_line :: "string \<Rightarrow> string \<Rightarrow> string" where
  "record_line c fr =
     ''data: {\"choices\":[{\"delta\":{\"content\":\"'' @ c @
     ''\"},\"index\":0,\"finish_reason\":'' @ fr @ ''}]}''"

text \<open>
  Example streams: the end-to-end scenario, five one-letter fragments, a greeting sent as
  three records in two chunks that split the second record, two records around a
  truncated one, and a record after the sentinel.
\<close>

definition hi_there_lines :: "string list" where
  "hi_there_lines =
     [record_line ''Hi'' ''null'', record_line '' there'' ''\"stop\"'', ''data: [DONE]'']"

definition abcde_lines :: "string list" where
  "abcde_lines = map (\<lambda>c. record_line [c] ''null'') ''abcde''"

definition hello_lines :: "string list" where
  "hello_lines =
     [record_line ''Hel'' ''null'', record_line ''lo, wor'' ''null'',
      record_line ''ld!'' ''\"stop\"'']"

definition garbled_lines :: "string list" where
  "garbled_lines =
     [record_line ''Hel'' ''null'', ''data: {\"choices\":[{\"delta\"'', record_line ''lo!'' ''null'']"

definition after_done_lines :: "string list" where
  "after_done_lines = [''data: [DONE]'', record_line ''late'' ''null'']"

text \<open>
  The bytes of one record whose content is \<^verbatim>\<open>caf\<close> followed by U+00E9, which is the
  two bytes C3 A9 in UTF-8; and the delivery of a byte sequence one byte per chunk.
\<close>

definition cafe_bytes :: "byte list" where
  "cafe_bytes =
     ascii ''data: {\"choices\":[{\"delta\":{\"content\":\"caf'' @ [0xC3, 0xA9] @
     ascii ''\"},\"index\":0,\"finish_reason\":null}]}'' @ [0x0A]"

definition bytewise :: "byte list \<Rightarrow> byte list list" where
  "bytewise bs = map (\<lambda>b. [b]) bs"

text \<open>
  The same bytes delivered by two reads, the first ending with the byte C3 and the second
  starting with the byte A9.
\<close>

definition cafe_cut :: "byte list list" where
  "cafe_cut =
     [ascii ''data: {\"choices\":[{\"delta\":{\"content\":\"caf'' @ [0xC3],
      [0xA9] @ ascii ''\"},\"index\":0,\"finish_reason\":null}]}'' @ [0x0A]]"

definition hello_chunks :: "byte list list" where
  "hello_chunks =
     [take 100 (wire hello_lines),
      drop 100 (wire hello_lines)]"

text \<open>A response with status 401 and one that is fine but has no body.\<close>

definition unauthorized :: response where
  "unauthorized =
     \<lparr>res_ok = False, res_status = 401, res_statusText = js ''Unauthorized'', res_json = None,
      res_body = None\<rparr>"

definition bodiless :: response where
  "bodiless =
     \<lparr>res_ok = True, res_status = 200, res_statusText = js ''OK'', res_json = None,
      res_body = None\<rparr>"

text \<open>The callback that records the chunks it is given, in order.\<close>

definition record_chunk :: "jstring \<Rightarrow> jstring list \<Rightarrow> jstring list" where
  "record_chunk chunk calls = calls @ [chunk]"

text \<open>Messages and options for the greeting rule.\<close>

definition user_says :: "string \<Rightarrow> ChatMessage" where
  "user_says t = \<lparr>role = User, content = js t\<rparr>"

definition padded_prompt :: CompletionOptions where
  "padded_prompt =
     \<lparr>model = None, temperature = None, maxTokens = None, systemPrompt = Some (js '' Be brief. '')\<rparr>"

definition no_options :: CompletionOptions where
  "no_options = \<lparr>model = None, temperature = None, maxTokens = None, systemPrompt = None\<rparr>"

text \<open>
  The callback that \<^verbatim>\<open>sendMessage\<close> of the chat component (\<^verbatim>\<open>ChatProvider\<close>) passes:
  \<^verbatim>\<open>fullResponse += chunk\<close>, then the content of the assistant message is set to
  \<^verbatim>\<open>fullResponse\<close>. Its state is that variable and the contents shown so far.
\<close>

definition show_chunk :: "jstring \<Rightarrow> jstring \<times> jstring list \<Rightarrow> jstring \<times> jstring list" where
  "show_chunk chunk ui = (fst ui @ chunk, snd ui @ [fst ui @ chunk])"

section \<open>Notions used to state the properties\<close>

text \<open>The text of lines that each end in a line feed, and the decoded text of a body.\<close>

definition unlines :: "jstring list \<Rightarrow> jstring" where
  "unlines ls = concat (map (\<lambda>l. l @ [0x0A]) ls)"

definition stream_text :: "env \<Rightarrow> body_stream \<Rightarrow> jstring" where
  "stream_text e b = concat (map (decode e) (chunks b))"

definition complete_lines :: "jstring \<Rightarrow> jstring list" where
  "complete_lines t = butlast (split_nl t)"

text \<open>The key is set and \<^verbatim>\<open>fetch\<close> resolves with the response \<open>r\<close>.\<close>

definition answers :: "env \<Rightarrow> ChatMessage list \<Rightarrow> CompletionOptions \<Rightarrow> response \<Rightarrow> bool" where
  "answers e messages options r \<longleftrightarrow>
     (case GROQ_API_KEY e of
        None \<Rightarrow> False
      | Some key \<Rightarrow>
          key \<noteq> [] \<and> fetch e (build_request key (merge_options options) messages) = Inr r)"

text \<open>
  What one line does to the pending text \<open>acc\<close>: whether it calls \<^verbatim>\<open>onChunk\<close>, and
  the pending text it then holds or flushes. It is read off \<open>process_line\<close> run with a
  callback that only notes that it was called.
\<close>

definition line_step :: "env \<Rightarrow> jstring \<Rightarrow> jstring \<Rightarrow> bool \<times> jstring" where
  "line_step e acc line =
     (let r = process_line e (\<lambda>chunk called. True)
                \<lparr>caller = False, fullResponse = [], accumulatedChunks = acc\<rparr> line
      in (caller r, fullResponse r @ accumulatedChunks r))"

definition line_fragment :: "env \<Rightarrow> jstring \<Rightarrow> jstring" where
  "line_fragment e line = snd (line_step e [] line)"

text \<open>
  A well-formed DataRecord line: no line feed inside, and trimmed it is \<^verbatim>\<open>data: \<close>
  followed by JSON of the shape \<^verbatim>\<open>{choices: [{delta: {content?: string}, ...}], ...}\<close>.
  \<open>data_line e l = Some (c, stop)\<close> gives its content (empty when there is none) and
  whether its finish reason is \<^verbatim>\<open>"stop"\<close>.
\<close>

definition record_fields :: "json \<Rightarrow> (jstring \<times> bool) option" where
  "record_fields data =
     (case data of
        JObj members \<Rightarrow>
          (case own_property members (js ''choices'') of
             Some (JArr (JObj choice # others)) \<Rightarrow>
               (case own_property choice (js ''delta'') of
                  Some (JObj delta) \<Rightarrow>
                    (case own_property delta (js ''content'') of
                       None \<Rightarrow> Some ([], finish_is_stop (Some (JObj choice)))
                     | Some (JStr c) \<Rightarrow> Some (c, finish_is_stop (Some (JObj choice)))
                     | _ \<Rightarrow> None)
                | _ \<Rightarrow> None)
           | _ \<Rightarrow> None)
      | _ \<Rightarrow> None)"

definition data_line :: "env \<Rightarrow> jstring \<Rightarrow> (jstring \<times> bool) option" where
  "data_line e l =
     (let t = trim l in
      if 0x0A \<in> set l \<or> take 6 t \<noteq> js ''data: '' \<or> t = js ''data: [DONE]'' then None
      else (case JSON_parse e (drop 6 t) of None \<Rightarrow> None | Some data \<Rightarrow> record_fields data))"

text \<open>
  A malformed line: not blank, not the sentinel, and either \<^verbatim>\<open>JSON.parse\<close> rejects it
  or the value has no \<^verbatim>\<open>choices\<close> to index.
\<close>

definition malformed_line :: "env \<Rightarrow> jstring \<Rightarrow> bool" where
  "malformed_line e l \<longleftrightarrow>
     0x0A \<notin> set l \<and>
     (let t = trim l in
      t \<noteq> [] \<and> t \<noteq> js ''data: [DONE]'' \<and>
      (case JSON_parse e (strip_data_prefix t) of
         None \<Rightarrow> True
       | Some data \<Rightarrow> isl (first_choice data)))"

definition sentinel_line :: "jstring \<Rightarrow> bool" where
  "sentinel_line l \<longleftrightarrow> 0x0A \<notin> set l \<and> trim l = js ''data: [DONE]''"

section \<open>Lines, chunks and the read loop\<close>

subsection \<open>Splitting into lines\<close>

lemma split_nl_not_Nil [simp]: "split_nl s \<noteq> []"
  by (induction s) (auto split: list.splits)

lemma split_nl_append:
  "split_nl (a @ b) = butlast (split_nl a) @ split_nl (last (split_nl a) @ b)"
proof (induction a)
  case Nil
  show ?case by simp
next
  case (Cons c a)
  show ?case
  proof (cases "c = 0x0A")
    case True
    with Cons show ?thesis by simp
  next
    case False
    obtain l ls where sa: "split_nl a = l # ls"
      by (cases "split_nl a") auto
    obtain l' ls' where sab: "split_nl (a @ b) = l' # ls'"
      by (cases "split_nl (a @ b)") auto
    show ?thesis
    proof (cases ls)
      case Nil
      with Cons sa sab False show ?thesis by simp
    next
      case (Cons x xs)
      with Cons.IH sa sab False show ?thesis by simp
    qed
  qed
qed

lemma split_nl_line: "0x0A \<notin> set l \<Longrightarrow> split_nl (l @ 0x0A # t) = l # split_nl t"
  by (induction l) (auto split: list.splits)

lemma split_nl_unlines:
  "\<forall>l \<in> set ls. 0x0A \<notin> set l \<Longrightarrow> split_nl (unlines ls @ t) = ls @ split_nl t"
  by (induction ls) (auto simp: unlines_def split_nl_line)

lemma split_nl_no_newline: "0x0A \<notin> set b \<Longrightarrow> split_nl b = [b]"
  by (induction b) auto

lemma last_split_nl_no_newline: "0x0A \<notin> set (last (split_nl s))"
  by (induction s) (auto split: list.splits)

lemma complete_lines_append:
  "butlast (split_nl (a @ b)) = butlast (split_nl a) @ butlast (split_nl (last (split_nl a) @ b))"
  by (subst split_nl_append) (simp add: butlast_append)

lemma complete_lines_unlines:
  "\<forall>l \<in> set ls. 0x0A \<notin> set l \<Longrightarrow> complete_lines (unlines ls) = ls"
  using split_nl_unlines [of ls "[]"] by (simp add: complete_lines_def)

lemma complete_lines_unlines_rest:
  "\<forall>l \<in> set ls. 0x0A \<notin> set l \<Longrightarrow> 0x0A \<notin> set rest \<Longrightarrow>
   complete_lines (unlines ls @ rest) = ls"
  using split_nl_unlines [of ls rest] by (simp add: complete_lines_def split_nl_no_newline)

subsection \<open>The read loop processes the complete lines of the decoded text\<close>

text \<open>
  Whatever the chunks are, the loop runs \<open>process_line\<close> over the complete lines of the
  concatenated decoded chunks; the piece after the last line feed stays in \<^verbatim>\<open>buffer\<close>
  and is dropped when the reader reports done.
\<close>

lemma read_loop_Nil_buffer: "read_loop e f [] fin buf st = read_loop e f [] fin buf' st"
  by (cases fin) auto

lemma read_loop_text:
  "0x0A \<notin> set buf \<Longrightarrow>
   read_loop e f cs fin buf st =
     read_loop e f [] fin []
       (foldl (process_line e f) st (butlast (split_nl (buf @ concat (map (decode e) cs)))))"
proof (induction cs arbitrary: buf st)
  case Nil
  then show ?case
    using read_loop_Nil_buffer [of e f fin buf st "[]"] by (simp add: split_nl_no_newline)
next
  case (Cons c cs)
  have "read_loop e f (c # cs) fin buf st =
        read_loop e f cs fin (last (split_nl (buf @ decode e c)))
          (foldl (process_line e f) st (butlast (split_nl (buf @ decode e c))))"
    by (simp add: Let_def pop_or_empty_def)
  also have "\<dots> = read_loop e f [] fin []
       (foldl (process_line e f) (foldl (process_line e f) st (butlast (split_nl (buf @ decode e c))))
          (butlast (split_nl (last (split_nl (buf @ decode e c)) @ concat (map (decode e) cs)))))"
    by (rule Cons.IH) (rule last_split_nl_no_newline)
  also have "\<dots> = read_loop e f [] fin []
       (foldl (process_line e f) st (butlast (split_nl ((buf @ decode e c) @ concat (map (decode e) cs)))))"
    by (simp add: complete_lines_append [of "buf @ decode e c"] del: append_assoc)
  finally show ?case by simp
qed

lemma getChatCompletion_body:
  assumes "answers e messages options r" and "res_ok r" and "res_body r = Some b"
  shows "getChatCompletion e messages f s options =
           (case ending b of
              Done \<Rightarrow>
                send_remaining f
                  (foldl (process_line e f) (initial s) (complete_lines (stream_text e b)))
            | Rejects x \<Rightarrow>
                (caller (foldl (process_line e f) (initial s) (complete_lines (stream_text e b))),
                 Inl (Thrown x)))"
proof -
  obtain key where key: "GROQ_API_KEY e = Some key" "key \<noteq> []"
    and fetch: "fetch e (build_request key (merge_options options) messages) = Inr r"
    using assms(1) by (auto simp: answers_def split: option.splits)
  have loop: "read_loop e f (chunks b) fin [] (initial s) =
        read_loop e f [] fin []
          (foldl (process_line e f) (initial s) (complete_lines (stream_text e b)))" for fin
    using read_loop_text [of "[]" e f "chunks b" fin "initial s"]
    by (simp add: complete_lines_def stream_text_def)
  show ?thesis
    using key fetch assms(2,3)
    by (cases "ending b") (simp_all add: getChatCompletion_def Let_def loop)
qed

lemma getChatCompletion_lines:
  assumes "answers e messages options r" and "res_ok r" and "res_body r = Some b"
    and "stream_text e b = unlines ls" and "\<forall>l \<in> set ls. 0x0A \<notin> set l"
  shows "getChatCompletion e messages f s options =
           (case ending b of
              Done \<Rightarrow> send_remaining f (foldl (process_line e f) (initial s) ls)
            | Rejects x \<Rightarrow> (caller (foldl (process_line e f) (initial s) ls), Inl (Thrown x)))"
  using getChatCompletion_body [OF assms(1-3), of f s] complete_lines_unlines [OF assms(5)] assms(4)
  by (simp split: read_end.splits)

subsection \<open>What one line does\<close>

lemma process_line_step:
  "process_line e f st l =
     (case line_step e (accumulatedChunks st) l of
        (True, acc) \<Rightarrow>
          \<lparr>caller = f acc (caller st), fullResponse = fullResponse st @ acc, accumulatedChunks = []\<rparr>
      | (False, acc) \<Rightarrow> st\<lparr>accumulatedChunks := acc\<rparr>)"
  by (simp add: line_step_def process_line_def try_line_def Let_def
           split: option.splits sum.splits)

lemma line_step_fragment: "snd (line_step e acc l) = acc @ line_fragment e l"
  by (simp add: line_fragment_def line_step_def process_line_def try_line_def Let_def
           split: option.splits sum.splits)

lemma process_line_text:
  "fullResponse (process_line e f st l) @ accumulatedChunks (process_line e f st l) =
     fullResponse st @ accumulatedChunks st @ line_fragment e l"
  using line_step_fragment [of e "accumulatedChunks st" l]
  by (cases "line_step e (accumulatedChunks st) l") (auto simp: process_line_step split: bool.splits)

lemma process_line_invariant:
  assumes "\<And>c s t. I s t \<Longrightarrow> I (f c s) (t @ c)" and "I (caller st) (fullResponse st)"
  shows "I (caller (process_line e f st l)) (fullResponse (process_line e f st l))"
  using assms
  by (cases "line_step e (accumulatedChunks st) l") (auto simp: process_line_step split: bool.splits)

lemma lines_text:
  "fullResponse (foldl (process_line e f) st ls) @ accumulatedChunks (foldl (process_line e f) st ls) =
     fullResponse st @ accumulatedChunks st @ concat (map (line_fragment e) ls)"
proof (induction ls arbitrary: st)
  case Nil
  show ?case by simp
next
  case (Cons l ls)
  show ?case
    using Cons.IH [of "process_line e f st l"] process_line_text [of e f st l]
    by (simp add: append_assoc [symmetric] del: append_assoc)
qed

lemma lines_invariant:
  assumes "\<And>c s t. I s t \<Longrightarrow> I (f c s) (t @ c)" and "I (caller st) (fullResponse st)"
  shows "I (caller (foldl (process_line e f) st ls)) (fullResponse (foldl (process_line e f) st ls))"
  using assms(2)
proof (induction ls arbitrary: st)
  case Nil
  then show ?case by simp
next
  case (Cons l ls)
  show ?case
    using Cons.IH [OF process_line_invariant [of I f st e l, OF assms(1) Cons.prems]] by simp
qed

lemma initial_text:
  "fullResponse (foldl (process_line e f) (initial u) ls) @
   accumulatedChunks (foldl (process_line e f) (initial u) ls) = concat (map (line_fragment e) ls)"
  using lines_text [of e f "initial u" ls] by (simp add: initial_def)

lemma recorded_calls:
  "concat (caller (foldl (process_line e record_chunk) (initial []) ls)) =
     fullResponse (foldl (process_line e record_chunk) (initial []) ls)"
  by (rule lines_invariant [where I = "\<lambda>calls t. concat calls = t"])
     (simp_all add: record_chunk_def initial_def)

lemma appended_result:
  "caller (foldl (process_line e (\<lambda>chunk result. result @ chunk)) (initial []) ls) =
     fullResponse (foldl (process_line e (\<lambda>chunk result. result @ chunk)) (initial []) ls)"
  by (rule lines_invariant [where I = "\<lambda>result t. result = t"]) (simp_all add: initial_def)

lemma send_remaining_text:
  "snd (send_remaining f st) = Inr (fullResponse st @ accumulatedChunks st)"
  by (simp add: send_remaining_def)

lemma send_remaining_calls:
  "concat (caller st) = fullResponse st \<Longrightarrow>
   concat (fst (send_remaining record_chunk st)) = fullResponse st @ accumulatedChunks st"
  by (simp add: send_remaining_def record_chunk_def)

lemma send_remaining_appended:
  "caller st = fullResponse st \<Longrightarrow>
   fst (send_remaining (\<lambda>chunk result. result @ chunk) st) = fullResponse st @ accumulatedChunks st"
  by (simp add: send_remaining_def)

lemma sentinel_line_skipped: "sentinel_line l \<Longrightarrow> process_line e f st l = st"
  by (simp add: sentinel_line_def process_line_def)

lemma blank_line_skipped: "trim l = [] \<Longrightarrow> process_line e f st l = st"
  by (simp add: process_line_def)

lemma malformed_line_skipped: "malformed_line e l \<Longrightarrow> process_line e f st l = st"
  by (auto simp: malformed_line_def process_line_def try_line_def Let_def
           split: option.splits sum.splits)

lemma malformed_line_fragment: "malformed_line e l \<Longrightarrow> line_fragment e l = []"
  using process_line_text [of e "\<lambda>c s. s" "initial ()" l]
  by (simp add: malformed_line_skipped initial_def)

lemma data_line_prefix:
  assumes "data_line e l = Some (c, stop)"
  shows "trim l \<noteq> [] \<and> trim l \<noteq> js ''data: [DONE]'' \<and> 0x0A \<notin> set l \<and>
     (\<exists>data. JSON_parse e (strip_data_prefix (trim l)) = Some data \<and> record_fields data = Some (c, stop))"
proof -
  have guard: "\<not> (0x0A \<in> set l \<or> take 6 (trim l) \<noteq> js ''data: '' \<or> trim l = js ''data: [DONE]'')"
    using assms unfolding data_line_def Let_def by (auto split: if_splits)
  then have pre: "take 6 (trim l) = js ''data: ''" by simp
  have "js ''data: '' \<noteq> []" by (simp add: js_def)
  with pre have ne: "trim l \<noteq> []" by auto
  have strip: "strip_data_prefix (trim l) = drop 6 (trim l)"
    using pre by (simp add: strip_data_prefix_def)
  have "(case JSON_parse e (drop 6 (trim l)) of None \<Rightarrow> None | Some data \<Rightarrow> record_fields data) = Some (c, stop)"
    using assms guard unfolding data_line_def Let_def by (simp split: if_splits)
  then obtain data where "JSON_parse e (drop 6 (trim l)) = Some data" "record_fields data = Some (c, stop)"
    by (auto split: option.splits)
  with guard ne strip show ?thesis by auto
qed

lemma record_fields_shape:
  assumes "record_fields data = Some (c, stop)"
  shows "\<exists>members choice others delta.
           data = JObj members \<and>
           own_property members (js ''choices'') = Some (JArr (JObj choice # others)) \<and>
           own_property choice (js ''delta'') = Some (JObj delta) \<and>
           stop = finish_is_stop (Some (JObj choice)) \<and>
           (own_property delta (js ''content'') = None \<and> c = [] \<or>
            own_property delta (js ''content'') = Some (JStr c))"
proof -
  define ch where "ch = js ''choices''"
  define de where "de = js ''delta''"
  define co where "co = js ''content''"
  show ?thesis
    using assms unfolding record_fields_def ch_def [symmetric] de_def [symmetric] co_def [symmetric]
    by (simp split: json.splits option.splits list.splits)
qed

lemma data_record_try:
  assumes "JSON_parse e (strip_data_prefix t) = Some data" and "record_fields data = Some (c, stop)"
  shows "try_line e f st t =
           Inr (if c = [] then st
                else if 4 \<le> length (accumulatedChunks st @ c) \<or> stop then
                  \<lparr>caller = f (accumulatedChunks st @ c) (caller st),
                   fullResponse = fullResponse st @ accumulatedChunks st @ c,
                   accumulatedChunks = []\<rparr>
                else st\<lparr>accumulatedChunks := accumulatedChunks st @ c\<rparr>)"
proof -
  from record_fields_shape [OF assms(2)] obtain members choice others delta where
    data: "data = JObj members"
    and choices: "own_property members (js ''choices'') = Some (JArr (JObj choice # others))"
    and delta: "own_property choice (js ''delta'') = Some (JObj delta)"
    and stop: "stop = finish_is_stop (Some (JObj choice))"
    and content: "own_property delta (js ''content'') = None \<and> c = [] \<or>
                  own_property delta (js ''content'') = Some (JStr c)"
    by blast
  have first: "first_choice data = Inr (Some (JObj choice))"
    using data choices by (simp add: first_choice_def)
  have chain: "opt_chain (opt_chain (Some (JObj choice)) (js ''delta'')) (js ''content'') =
                 own_property delta (js ''content'')"
    using delta by (simp add: opt_chain_def)
  from content show ?thesis
  proof
    assume "own_property delta (js ''content'') = None \<and> c = []"
    then show ?thesis
      using assms(1) first chain by (simp add: try_line_def Let_def)
  next
    assume some: "own_property delta (js ''content'') = Some (JStr c)"
    show ?thesis
    proof (cases "c = []")
      case True
      then show ?thesis
        using assms(1) first chain some by (simp add: try_line_def Let_def)
    next
      case False
      then show ?thesis
        using assms(1) first chain some stop by (simp add: try_line_def Let_def)
    qed
  qed
qed

lemma data_line_step:
  assumes "data_line e l = Some (c, stop)"
  shows "process_line e f st l =
           (if c = [] then st
            else if 4 \<le> length (accumulatedChunks st @ c) \<or> stop then
              \<lparr>caller = f (accumulatedChunks st @ c) (caller st),
               fullResponse = fullResponse st @ accumulatedChunks st @ c,
               accumulatedChunks = []\<rparr>
            else st\<lparr>accumulatedChunks := accumulatedChunks st @ c\<rparr>)"
proof -
  from data_line_prefix [OF assms] obtain data where
    t: "trim l \<noteq> []" "trim l \<noteq> js ''data: [DONE]''"
    and p: "JSON_parse e (strip_data_prefix (trim l)) = Some data"
    and rf: "record_fields data = Some (c, stop)" by blast
  show ?thesis
    using t by (simp add: process_line_def Let_def data_record_try [OF p rf])
qed

lemma data_line_fragment: "data_line e l = Some (c, stop) \<Longrightarrow> line_fragment e l = c"
  using process_line_text [of e "\<lambda>c s. s" "initial ()" l]
  by (simp add: data_line_step initial_def split: if_splits)

lemma data_lines_fragments:
  "map (data_line e) ls = map Some recs \<Longrightarrow> map (line_fragment e) ls = map fst recs"
proof (induction ls arbitrary: recs)
  case Nil
  then show ?case by simp
next
  case (Cons l ls)
  then obtain r rs where recs: "recs = r # rs" by (cases recs) auto
  with Cons show ?case by (cases r) (auto simp: data_line_fragment)
qed

lemma data_lines_no_newline:
  "map (data_line e) ls = map Some recs \<Longrightarrow> \<forall>l \<in> set ls. 0x0A \<notin> set l"
proof (induction ls arbitrary: recs)
  case Nil
  then show ?case by simp
next
  case (Cons l ls)
  then obtain r rs where recs: "recs = r # rs" by (cases recs) auto
  with Cons.prems have "data_line e l = Some r" by simp
  then have "0x0A \<notin> set l" using data_line_prefix [of e l "fst r" "snd r"] by simp
  with Cons recs show ?case by auto
qed

subsection \<open>The outcome depends on the decoded text only\<close>

lemma process_line_same_parser:
  "JSON_parse e' = JSON_parse e \<Longrightarrow> process_line e' f st l = process_line e f st l"
  by (simp add: process_line_def try_line_def Let_def)

lemma lines_same_parser:
  "JSON_parse e' = JSON_parse e \<Longrightarrow>
   foldl (process_line e' f) st ls = foldl (process_line e f) st ls"
  by (induction ls arbitrary: st) (simp_all add: process_line_same_parser [of e' e])

lemma chunking_invariance_of_decoded_text:
  assumes "answers e messages options r" and "res_ok r" and "res_body r = Some b"
    and "answers e' messages options r'" and "res_ok r'" and "res_body r' = Some b'"
    and "JSON_parse e' = JSON_parse e"
    and "stream_text e' b' = stream_text e b" and "ending b' = ending b"
  shows "getChatCompletion e' messages f s options = getChatCompletion e messages f s options"
  unfolding getChatCompletion_body [OF assms(1-3)] getChatCompletion_body [OF assms(4-6)]
    assms(8,9) lines_same_parser [OF assms(7)] ..

subsection \<open>The request that is sent\<close>

text \<open>
  \<^verbatim>\<open>fetch\<close> is applied to one request, the one built from the key, the merged options and
  the messages: what it would answer to any other request does not matter.
\<close>

lemma read_loop_same_platform:
  assumes "decode e' = decode e" and "JSON_parse e' = JSON_parse e"
  shows "read_loop e' f cs fin buf st = read_loop e f cs fin buf st"
proof (induction cs arbitrary: buf st)
  case Nil
  show ?case by (cases fin) simp_all
next
  case (Cons c cs)
  show ?case
    by (simp add: Let_def assms(1) lines_same_parser [OF assms(2)] Cons.IH)
qed

lemma only_the_built_request_is_sent:
  assumes "GROQ_API_KEY e = Some key"
  shows "getChatCompletion
           (e\<lparr>fetch := \<lambda>req. if req = build_request key (merge_options options) messages
                              then fetch e req else Inl NoResponseBody\<rparr>)
           messages f s options =
         getChatCompletion e messages f s options"
proof -
  let ?e' = "e\<lparr>fetch := \<lambda>req. if req = build_request key (merge_options options) messages
                              then fetch e req else Inl NoResponseBody\<rparr>"
  have loop: "read_loop ?e' f cs fin buf st = read_loop e f cs fin buf st" for cs fin buf st
    by (rule read_loop_same_platform) simp_all
  show ?thesis
    by (simp add: getChatCompletion_def assms Let_def loop split: sum.splits option.splits)
qed

section \<open>The browser on the example streams\<close>

subsection \<open>ASCII bytes decode to themselves, however they are chunked\<close>

lemma js_Nil_iff [simp]: "js s = [] \<longleftrightarrow> s = []"
  by (simp add: js_def)

lemma length_js [simp]: "length (js s) = length s"
  by (simp add: js_def)

lemma utf8_run_ascii: "\<forall>b \<in> set bs. b < 0x80 \<Longrightarrow> utf8_run utf8_init bs = bs"
  by (induction bs) (auto simp: utf8_step_def utf8_lead_def utf8_init_def)

lemma decode_ascii:
  assumes "\<forall>b \<in> set bs. b < 0x80"
  shows "TextDecoder_decode bs = map ucast bs"
proof -
  have small: "\<forall>n \<in> set (map unat bs). n < 0x80"
    using assms by (auto simp: word_less_nat_alt)
  have run: "utf8_run utf8_init (map unat bs) = map unat bs"
    by (rule utf8_run_ascii [OF small])
  have bom: "strip_bom (map unat bs) = map unat bs"
    using small by (cases bs) (auto simp: strip_bom_def)
  have unit: "utf16_units (unat b) = [ucast b]" for b :: byte
  proof -
    have "unat b < 2 ^ LENGTH(8)" by (rule unsigned_less)
    then have "unat b < 256" by simp
    then show ?thesis by (simp add: utf16_units_def)
  qed
  have units: "concat (map utf16_units (map unat bs)) = map ucast bs"
    by (simp add: unit comp_def)
  show ?thesis
    unfolding TextDecoder_decode_def run bom by (rule units)
qed

lemma ucast_of_char: "(ucast (of_char c :: byte) :: jchar) = of_char c"
proof -
  have "(ucast (of_nat (of_char c) :: byte) :: jchar) = of_nat (take_bit 8 (of_char c :: nat))"
    by (simp add: unsigned_of_nat)
  moreover have "take_bit 8 (of_char c :: nat) = of_char c"
    by (simp add: take_bit_eq_mod)
  ultimately show ?thesis by (simp add: of_nat_of_char)
qed

lemma ucast_ascii: "map ucast (ascii s) = js s"
  by (simp add: ascii_def js_def ucast_of_char)

lemma answers_browser: "answers (browser r) messages options r"
  by (simp add: answers_def browser_def js_def)

lemma ascii_stream_text:
  assumes "concat cs = wire ls" and "\<forall>b \<in> set (concat cs). b < 0x80"
  shows "stream_text (browser r) \<lparr>chunks = cs, ending = fin\<rparr> = unlines (map js ls)"
proof -
  have decoded: "map TextDecoder_decode cs = map (map ucast) cs"
    using assms(2) by (auto intro!: decode_ascii)
  have "stream_text (browser r) \<lparr>chunks = cs, ending = fin\<rparr> =
          concat (map TextDecoder_decode cs)"
    by (simp add: stream_text_def browser_def)
  also have "\<dots> = concat (map (map ucast) cs)"
    by (simp only: decoded)
  also have "\<dots> = map ucast (concat cs)"
    by (simp add: map_concat)
  also have "\<dots> = unlines (map js ls)"
    by (simp add: assms(1) unlines_def wire_def line_bytes_def map_concat comp_def ucast_ascii)
  finally show ?thesis .
qed

lemma browser_lines:
  assumes "concat cs = wire ls" and "\<forall>b \<in> set (concat cs). b < 0x80"
    and "\<forall>l \<in> set ls. 0x0A \<notin> set (js l)"
  shows "getChatCompletion (browser (ok_response cs fin)) messages f s options =
           (case fin of
              Done \<Rightarrow>
                send_remaining f
                  (foldl (process_line (browser (ok_response cs fin)) f) (initial s) (map js ls))
            | Rejects x \<Rightarrow>
                (caller (foldl (process_line (browser (ok_response cs fin)) f) (initial s) (map js ls)),
                 Inl (Thrown x)))"
proof -
  have nl: "\<forall>l \<in> set (map js ls). 0x0A \<notin> set l" using assms(3) by simp
  show ?thesis
    using getChatCompletion_lines
            [where e = "browser (ok_response cs fin)" and r = "ok_response cs fin"
               and b = "\<lparr>chunks = cs, ending = fin\<rparr>" and f = f and s = s,
             OF answers_browser _ _ ascii_stream_text [OF assms(1,2)] nl]
    by (simp add: ok_response_def)
qed

lemma one_chunk:
  assumes "\<forall>b \<in> set (wire ls). b < 0x80"
    and "\<forall>l \<in> set ls. 0x0A \<notin> set (js l)"
  shows "getChatCompletion (browser (ok_response [wire ls] fin)) messages f s options =
           (case fin of
              Done \<Rightarrow>
                send_remaining f
                  (foldl (process_line (browser (ok_response [wire ls] fin)) f)
                     (initial s) (map js ls))
            | Rejects x \<Rightarrow>
                (caller (foldl (process_line (browser (ok_response [wire ls] fin)) f)
                           (initial s) (map js ls)),
                 Inl (Thrown x)))"
  using browser_lines [of "[wire ls]" ls fin messages f s options] assms by simp

lemma ascii_chunking_invariance:
  assumes "\<forall>b \<in> set bs. b < 0x80"
  shows "getChatCompletion (browser (ok_response (bytewise bs) fin)) messages f s options =
         getChatCompletion (browser (ok_response [bs] fin)) messages f s options"
proof -
  have each: "map TextDecoder_decode (bytewise bs) = map (\<lambda>b. [ucast b]) bs"
    using assms by (induction bs) (simp_all add: bytewise_def decode_ascii)
  have "stream_text (browser (ok_response (bytewise bs) fin)) \<lparr>chunks = bytewise bs, ending = fin\<rparr> =
          concat (map (\<lambda>b. [ucast b]) bs)"
    unfolding stream_text_def browser_def using each by simp
  then have "stream_text (browser (ok_response (bytewise bs) fin)) \<lparr>chunks = bytewise bs, ending = fin\<rparr> =
          map ucast bs"
    by simp
  moreover have "stream_text (browser (ok_response [bs] fin)) \<lparr>chunks = [bs], ending = fin\<rparr> =
          map ucast bs"
    by (simp add: stream_text_def browser_def decode_ascii [OF assms])
  ultimately show ?thesis
    using chunking_invariance_of_decoded_text
            [where e = "browser (ok_response [bs] fin)" and r = "ok_response [bs] fin"
               and b = "\<lparr>chunks = [bs], ending = fin\<rparr>"
               and e' = "browser (ok_response (bytewise bs) fin)"
               and r' = "ok_response (bytewise bs) fin"
               and b' = "\<lparr>chunks = bytewise bs, ending = fin\<rparr>",
             OF answers_browser _ _ answers_browser]
    by (simp add: ok_response_def browser_def)
qed

subsection \<open>The records of the examples\<close>

lemma replicate_unfold: "replicate n x = (if n = 0 then [] else x # replicate (n - 1) x)"
  by (cases n) simp_all

lemmas eval_number = floor_log_def floor_log_near_def round_half_even_def pack_double_def
  round_at_def round_to_double_def candidate_ok_def choose_candidate_def try_digits_def
  format_digits_def count_digits.simps decimal_digits.simps shortest_from.simps
  strip_zeros.simps replicate_unfold

lemmas eval_json = js_def parse_json_def skip_ws_def is_json_ws_def hex_digit_def hex4_def
  unescape_def cons_result_def is_digit_def parse_number_def digits_value_def
  number_to_string_def Let_def

lemmas eval_line = data_line_def record_fields_def trim_def is_js_space_def own_property_def
  finish_is_stop_def record_line_def browser_def

lemmas eval_utf8 = TextDecoder_decode_def utf8_init_def utf8_lead_def utf8_step_def strip_bom_def
  utf16_units_def

text \<open>
  Numbers with a fraction, an exponent or more digits than a double holds, and a record
  that carries such numbers beside its choices.
\<close>

lemma numbers_parse:
  "parse_json (js ''[0.8, 1e3, -2.50, 12345678901234567890, 1E21, 1e-7, -0.0]'') =
     Some (JArr [JNum (js ''0.8''), JNum (js ''1000''), JNum (js ''-2.5''),
                 JNum (js ''12345678901234567000''), JNum (js ''1e+21''), JNum (js ''1e-7''),
                 JNum (js ''0'')])"
  by (simp add: eval_json eval_number)

lemma usage_record:
  "data_line (browser r)
     (js (''data: {\"choices\":[{\"delta\":{\"content\":\"Hi\"},\"finish_reason\":\"stop\"}],'' @
          ''\"x_groq\":{\"usage\":{\"queue_time\":0.018,\"total_time\":1.5e-2}}}'')) =
     Some (js ''Hi'', True)"
  by (simp add: eval_line eval_json eval_number)

lemma hello_ascii: "\<forall>b \<in> set (wire hello_lines). b < 0x80"
  by (simp add: hello_lines_def wire_def line_bytes_def ascii_def record_line_def)

lemma hello_text:
  "stream_text (browser r) \<lparr>chunks = hello_chunks, ending = fin\<rparr> = unlines (map js hello_lines)"
proof -
  have a: "\<forall>b \<in> set (take 100 (wire hello_lines)). b < 0x80"
    using hello_ascii by (meson in_set_takeD)
  have b: "\<forall>b \<in> set (drop 100 (wire hello_lines)). b < 0x80"
    using hello_ascii by (meson in_set_dropD)
  have "stream_text (browser r) \<lparr>chunks = hello_chunks, ending = fin\<rparr> =
          map ucast (wire hello_lines)"
    by (simp add: stream_text_def browser_def hello_chunks_def decode_ascii [OF a] decode_ascii [OF b]
          flip: map_append)
  also have "\<dots> = unlines (map js hello_lines)"
    by (simp add: unlines_def wire_def line_bytes_def map_concat comp_def ucast_ascii)
  finally show ?thesis .
qed

lemma hello_records:
  "map (data_line (browser r)) (map js hello_lines) =
     map Some [(js ''Hel'', False), (js ''lo, wor'', False), (js ''ld!'', True)]"
  by (simp add: hello_lines_def eval_line eval_json)

lemma hello_run:
  "getChatCompletion (browser (ok_response hello_chunks Done)) messages f s options =
     (f (js ''ld!'') (f (js ''Hello, wor'') s), Inr (js ''Hello, world!''))"
proof -
  have cs: "concat hello_chunks = wire hello_lines"
    by (simp add: hello_chunks_def)
  have ascii: "\<forall>b \<in> set (concat hello_chunks). b < 0x80"
    unfolding cs by (rule hello_ascii)
  have nl: "\<forall>l \<in> set hello_lines. 0x0A \<notin> set (js l)"
    by (simp add: hello_lines_def record_line_def js_def)
  have r1: "data_line (browser r) (js (record_line ''Hel'' ''null'')) = Some (js ''Hel'', False)"
    and r2: "data_line (browser r) (js (record_line ''lo, wor'' ''null'')) = Some (js ''lo, wor'', False)"
    and r3: "data_line (browser r) (js (record_line ''ld!'' ''\"stop\"'')) = Some (js ''ld!'', True)"
    for r
    using hello_records [of r] by (simp_all add: hello_lines_def)
  show ?thesis
    unfolding browser_lines [OF cs ascii nl]
    by (simp add: hello_lines_def data_line_step [OF r1] data_line_step [OF r2]
          data_line_step [OF r3] initial_def send_remaining_def)
       (simp_all add: js_def)
qed

lemma Hel_record:
  "data_line (browser r) (js (record_line ''Hel'' ''null'')) = Some (js ''Hel'', False)"
  by (simp add: eval_line eval_json)

lemma lo_record:
  "data_line (browser r) (js (record_line ''lo!'' ''null'')) = Some (js ''lo!'', False)"
  by (simp add: eval_line eval_json)

lemma truncated_malformed: \<open>malformed_line (browser r) (js ''data: {"choices":[{"delta"'')\<close>
  by (simp add: malformed_line_def trim_def is_js_space_def strip_data_prefix_def browser_def
        eval_json)

lemma garbled_text:
  "stream_text (browser r) \<lparr>chunks = [wire garbled_lines], ending = fin\<rparr> =
     unlines (map js garbled_lines)"
  by (rule ascii_stream_text)
     (simp_all add: garbled_lines_def wire_def line_bytes_def ascii_def record_line_def)

lemma done_sentinel: "sentinel_line (js ''data: [DONE]'')"
  by (simp add: sentinel_line_def trim_def is_js_space_def js_def)

lemma late_record:
  "data_line (browser r) (js (record_line ''late'' ''null'')) = Some (js ''late'', False)"
  by (simp add: eval_line eval_json)

lemma after_done_run:
  "getChatCompletion (browser (ok_response [wire after_done_lines] Done))
     messages f s options = (f (js ''late'') s, Inr (js ''late''))"
proof -
  have ascii: "\<forall>b \<in> set (wire after_done_lines). b < 0x80"
    by (simp add: after_done_lines_def wire_def line_bytes_def ascii_def record_line_def)
  have nl: "\<forall>l \<in> set after_done_lines. 0x0A \<notin> set (js l)"
    by (simp add: after_done_lines_def record_line_def js_def)
  show ?thesis
    unfolding one_chunk [OF ascii nl]
    by (simp add: after_done_lines_def sentinel_line_skipped [OF done_sentinel]
          data_line_step [OF late_record] initial_def send_remaining_def)
qed

lemma only_done_run:
  "getChatCompletion (browser (ok_response [wire [''data: [DONE]'']] Done))
     messages f s options = (s, Inr [])"
proof -
  have ascii: "\<forall>b \<in> set (wire [''data: [DONE]'']). b < 0x80"
    by (simp add: wire_def line_bytes_def ascii_def)
  have nl: "\<forall>l \<in> set [''data: [DONE]'']. 0x0A \<notin> set (js l)"
    by (simp add: js_def)
  show ?thesis
    unfolding one_chunk [OF ascii nl]
    by (simp add: sentinel_line_skipped [OF done_sentinel] initial_def send_remaining_def)
qed

lemma letter_records:
  "data_line (browser r) (js (record_line ''a'' ''null'')) = Some (js ''a'', False)"
  "data_line (browser r) (js (record_line ''b'' ''null'')) = Some (js ''b'', False)"
  "data_line (browser r) (js (record_line ''c'' ''null'')) = Some (js ''c'', False)"
  "data_line (browser r) (js (record_line ''d'' ''null'')) = Some (js ''d'', False)"
  "data_line (browser r) (js (record_line ''e'' ''null'')) = Some (js ''e'', False)"
  by (simp_all add: eval_line eval_json)

lemma five_fragments:
  assumes "data_line e l1 = Some (js ''a'', False)" and "data_line e l2 = Some (js ''b'', False)"
    and "data_line e l3 = Some (js ''c'', False)" and "data_line e l4 = Some (js ''d'', False)"
    and "data_line e l5 = Some (js ''e'', False)"
  shows "send_remaining f
           (process_line e f (process_line e f (process_line e f (process_line e f
              (process_line e f (initial s) l1) l2) l3) l4) l5) =
           (f (js ''e'') (f (js ''abcd'') s), Inr (js ''abcde''))"
  by (simp add: data_line_step [OF assms(1)] data_line_step [OF assms(2)]
        data_line_step [OF assms(3)] data_line_step [OF assms(4)] data_line_step [OF assms(5)]
        initial_def send_remaining_def)
     (simp_all add: js_def)

lemma abcde_run:
  "getChatCompletion (browser (ok_response [wire abcde_lines] Done)) messages f s options =
     (f (js ''e'') (f (js ''abcd'') s), Inr (js ''abcde''))"
proof -
  have ascii: "\<forall>b \<in> set (wire abcde_lines). b < 0x80"
    by (simp add: abcde_lines_def wire_def line_bytes_def ascii_def record_line_def)
  have nl: "\<forall>l \<in> set abcde_lines. 0x0A \<notin> set (js l)"
    by (simp add: abcde_lines_def record_line_def js_def)
  show ?thesis
    unfolding one_chunk [OF ascii nl]
    by (simp add: abcde_lines_def five_fragments [OF letter_records])
qed

lemma Hi_record:
  "data_line (browser r) (js (record_line ''Hi'' ''null'')) = Some (js ''Hi'', False)"
  by (simp add: eval_line eval_json)

lemma there_record:
  "data_line (browser r) (js (record_line '' there'' ''\"stop\"'')) = Some (js '' there'', True)"
  by (simp add: eval_line eval_json)

lemma hi_there_fragments:
  assumes "data_line e l1 = Some (js ''Hi'', False)" and "data_line e l2 = Some (js '' there'', True)"
    and "sentinel_line l3"
  shows "send_remaining f (process_line e f (process_line e f (process_line e f (initial s) l1) l2) l3) =
           (f (js ''Hi there'') s, Inr (js ''Hi there''))"
  by (simp add: data_line_step [OF assms(1)] data_line_step [OF assms(2)]
        sentinel_line_skipped [OF assms(3)] initial_def send_remaining_def)
     (simp_all add: js_def)

lemma hi_there_run:
  "getChatCompletion (browser (ok_response [wire hi_there_lines] Done)) messages f s options =
     (f (js ''Hi there'') s, Inr (js ''Hi there''))"
proof -
  have ascii: "\<forall>b \<in> set (wire hi_there_lines). b < 0x80"
    by (simp add: hi_there_lines_def wire_def line_bytes_def ascii_def record_line_def)
  have nl: "\<forall>l \<in> set hi_there_lines. 0x0A \<notin> set (js l)"
    by (simp add: hi_there_lines_def record_line_def js_def)
  show ?thesis
    unfolding one_chunk [OF ascii nl]
    by (simp add: hi_there_lines_def hi_there_fragments [OF Hi_record there_record done_sentinel])
qed

lemma hi_only_run:
  "getChatCompletion (browser (ok_response [wire [record_line ''Hi'' ''null'']] fin)) messages f s
     options =
     (case fin of Done \<Rightarrow> (f (js ''Hi'') s, Inr (js ''Hi'')) | Rejects x \<Rightarrow> (s, Inl (Thrown x)))"
proof -
  have ascii: "\<forall>b \<in> set (wire [record_line ''Hi'' ''null'']). b < 0x80"
    by (simp add: wire_def line_bytes_def ascii_def record_line_def)
  have nl: "\<forall>l \<in> set [record_line ''Hi'' ''null'']. 0x0A \<notin> set (js l)"
    by (simp add: record_line_def js_def)
  show ?thesis
    unfolding one_chunk [OF ascii nl]
    by (simp add: data_line_step [OF Hi_record] initial_def send_remaining_def
          split: read_end.splits)
qed

lemma cafe_text:
  "TextDecoder_decode cafe_bytes =
     unlines [js ''data: {\"choices\":[{\"delta\":{\"content\":\"caf'' @ [0xE9] @
              js ''\"},\"index\":0,\"finish_reason\":null}]}'']"
  by (simp add: cafe_bytes_def ascii_def unlines_def js_def eval_utf8)

lemma cafe_bytewise_text:
  "concat (map TextDecoder_decode (bytewise cafe_bytes)) =
     unlines [js ''data: {\"choices\":[{\"delta\":{\"content\":\"caf'' @ [0xFFFD, 0xFFFD] @
              js ''\"},\"index\":0,\"finish_reason\":null}]}'']"
  by (simp add: cafe_bytes_def bytewise_def ascii_def unlines_def js_def eval_utf8)

lemma cafe_cut_text:
  "concat (map TextDecoder_decode cafe_cut) =
     unlines [js ''data: {\"choices\":[{\"delta\":{\"content\":\"caf'' @ [0xFFFD, 0xFFFD] @
              js ''\"},\"index\":0,\"finish_reason\":null}]}'']"
  by (simp add: cafe_cut_def ascii_def unlines_def js_def eval_utf8)

lemma cafe_cut_bytes: "concat cafe_cut = cafe_bytes"
  by (simp add: cafe_cut_def cafe_bytes_def)

lemma cafe_fields:
  "Option.bind
     (parse_json (js ''{\"choices\":[{\"delta\":{\"content\":\"caf'' @ [0xE9] @
                  js ''\"},\"index\":0,\"finish_reason\":null}]}''))
     record_fields = Some (js ''caf'' @ [0xE9], False)"
  by (simp add: eval_line eval_json)

lemma cafe_record:
  "data_line (browser r)
     (js ''data: {\"choices\":[{\"delta\":{\"content\":\"caf'' @ u @
      js ''\"},\"index\":0,\"finish_reason\":null}]}'') = Some (js ''caf'' @ u, False)"
  if "u = [0xE9] \<or> u = [0xFFFD, 0xFFFD]"
  using that by (auto simp: eval_line eval_json)

lemma cafe_run:
  assumes "concat (map TextDecoder_decode cs) =
     unlines [js ''data: {\"choices\":[{\"delta\":{\"content\":\"caf'' @ u @
              js ''\"},\"index\":0,\"finish_reason\":null}]}'']"
    and "u = [0xE9] \<or> u = [0xFFFD, 0xFFFD]"
  shows "getChatCompletion (browser (ok_response cs Done)) messages f s options =
           (f (js ''caf'' @ u) s, Inr (js ''caf'' @ u))"
proof -
  let ?l = "js ''data: {\"choices\":[{\"delta\":{\"content\":\"caf'' @ u @
            js ''\"},\"index\":0,\"finish_reason\":null}]}''"
  have t: "stream_text (browser (ok_response cs Done)) \<lparr>chunks = cs, ending = Done\<rparr> = unlines [?l]"
    using assms(1) by (simp add: stream_text_def browser_def)
  have nl: "\<forall>l \<in> set [?l]. 0x0A \<notin> set l"
    using data_line_prefix [OF cafe_record [OF assms(2)]] by simp
  have "getChatCompletion (browser (ok_response cs Done)) messages f s options =
          send_remaining f (process_line (browser (ok_response cs Done)) f (initial s) ?l)"
    using getChatCompletion_lines
            [where e = "browser (ok_response cs Done)" and r = "ok_response cs Done"
               and b = "\<lparr>chunks = cs, ending = Done\<rparr>" and f = f and s = s,
             OF answers_browser _ _ t nl]
    by (simp add: ok_response_def)
  also have "\<dots> = (f (js ''caf'' @ u) s, Inr (js ''caf'' @ u))"
    using assms(2)
    by (auto simp: data_line_step [OF cafe_record [OF assms(2)]] initial_def send_remaining_def)
  finally show ?thesis .
qed

lemma trim_greeting: "trim (js ''Respond with a greeting.'') = js ''Respond with a greeting.''"
  by (simp add: trim_def is_js_space_def js_def)

lemma trim_default: "trim defaultSystemPrompt = defaultSystemPrompt"
  by (simp add: trim_def is_js_space_def js_def defaultSystemPrompt_def)

lemma isGreeting_iff:
  "isGreeting messages \<longleftrightarrow>
     length messages = 1 \<and>
     (\<exists>w \<in> set [js ''hi'', js ''hello'', js ''hey'', js ''greetings'', js ''sup''].
        map ascii_lower (take (length w) (content (hd messages))) = w)"
proof (cases messages)
  case Nil
  then show ?thesis by (simp add: isGreeting_def)
next
  case (Cons m ms)
  then show ?thesis
    by (cases ms)
       (simp_all add: isGreeting_def greeting_test_def greeting_words_def starts_with_ci_def)
qed

subsection \<open>The final text of a decoded stream of records\<close>

text \<open>
  When the decoded stream consists of well-formed DataRecord lines, each ended by a
  line feed (an unfinished last line may follow, it is never processed), and the reader then
  reports done, the text the promise resolves with is the concatenation of the records'
  \<^verbatim>\<open>delta.content\<close> values in arrival order, however the text was cut into chunks:
  nothing is reordered, lost or duplicated. The chunks passed to \<^verbatim>\<open>onChunk\<close>
  concatenate to the same text.
\<close>

lemma final_text_of_decoded_lines:
  assumes "answers e messages options r" and "res_ok r" and "res_body r = Some b"
    and "ending b = Done"
    and "stream_text e b = unlines ls @ rest" and "0x0A \<notin> set rest"
    and "map (data_line e) ls = map Some recs"
  shows "snd (getChatCompletion e messages onChunk s options) = Inr (concat (map fst recs)) \<and>
         concat (fst (getChatCompletion e messages record_chunk [] options)) = concat (map fst recs)"
proof -
  have lines: "complete_lines (stream_text e b) = ls"
    using assms(5) complete_lines_unlines_rest [OF data_lines_no_newline [OF assms(7)] assms(6)]
    by simp
  have run: "getChatCompletion e messages f u options =
               send_remaining f (foldl (process_line e f) (initial u) ls)" for f and u :: 'b
    using getChatCompletion_body [OF assms(1-3), of f u] assms(4) lines by simp
  have total: "fullResponse (foldl (process_line e f) (initial u) ls) @
              accumulatedChunks (foldl (process_line e f) (initial u) ls) = concat (map fst recs)"
    for f and u :: 'b
    using lines_text [of e f "initial u" ls] data_lines_fragments [OF assms(7)]
    by (simp add: initial_def)
  have "snd (getChatCompletion e messages onChunk s options) = Inr (concat (map fst recs))"
    by (simp add: run send_remaining_text total)
  moreover have "concat (fst (getChatCompletion e messages record_chunk [] options)) =
                   concat (map fst recs)"
    by (simp add: run send_remaining_calls [OF recorded_calls] total)
  ultimately show ?thesis by simp
qed

text \<open>
  Three records saying \<^verbatim>\<open>Hello, world!\<close>, delivered in two chunks that cut the
  second record.
\<close>

lemma hello_world_final_text:
  "answers (browser (ok_response hello_chunks Done)) [] no_options (ok_response hello_chunks Done) \<and>
   res_ok (ok_response hello_chunks Done) \<and>
   res_body (ok_response hello_chunks Done) = Some \<lparr>chunks = hello_chunks, ending = Done\<rparr> \<and>
   ending \<lparr>chunks = hello_chunks, ending = Done\<rparr> = Done \<and>
   stream_text (browser (ok_response hello_chunks Done)) \<lparr>chunks = hello_chunks, ending = Done\<rparr> =
     unlines (map js hello_lines) @ [] \<and>
   map (data_line (browser (ok_response hello_chunks Done))) (map js hello_lines) =
     map Some [(js ''Hel'', False), (js ''lo, wor'', False), (js ''ld!'', True)] \<and>
   snd (getChatCompletion (browser (ok_response hello_chunks Done)) [] record_chunk [] no_options) =
     Inr (js ''Hello, world!'') \<and>
   concat (fst (getChatCompletion (browser (ok_response hello_chunks Done)) [] record_chunk []
                  no_options)) = js ''Hello, world!''"
proof -
  let ?r = "ok_response hello_chunks Done"
  let ?b = "\<lparr>chunks = hello_chunks, ending = Done\<rparr>"
  have h1: "answers (browser ?r) [] no_options ?r" by (rule answers_browser)
  have h2: "res_ok ?r" by (simp add: ok_response_def)
  have h3: "res_body ?r = Some ?b" by (simp add: ok_response_def)
  have h4: "ending ?b = Done" by simp
  have h5: "stream_text (browser ?r) ?b = unlines (map js hello_lines) @ []"
    by (simp add: hello_text)
  have h5': "(0x0A :: jchar) \<notin> set []" by simp
  have h6: "map (data_line (browser ?r)) (map js hello_lines) =
              map Some [(js ''Hel'', False), (js ''lo, wor'', False), (js ''ld!'', True)]"
    by (rule hello_records)
  have c: "concat (map fst [(js ''Hel'', False), (js ''lo, wor'', False), (js ''ld!'', True)]) =
             js ''Hello, world!''"
    by (simp add: js_def)
  show ?thesis
    using final_text_of_decoded_lines [OF h1 h2 h3 h4 h5 h5' h6, where onChunk = record_chunk and s = "[]"]
      h1 h2 h3 h4 h5 h6
    unfolding c by blast
qed

section \<open>The claims\<close>

subsection \<open>C1: the final text is the concatenation of the contents\<close>

text \<open>
  Claim C1 says that for every sequence of well-formed DataRecord lines delivered to
  \<^verbatim>\<open>getChatCompletion\<close> the final text is the concatenation of the records'
  \<^verbatim>\<open>delta.content\<close> values, regardless of how the bytes were chunked across reads.
  The lemma \<open>final_text_of_decoded_lines\<close> above shows this of the text that the
  decoder returns. But every chunk is decoded on its own (\<^verbatim>\<open>decoder.decode(value)\<close>
  without \<^verbatim>\<open>{stream: true}\<close>), so a character whose UTF-8 bytes are cut by the end
  of a read never reaches the line buffer: each part decodes to U+FFFD. The code evaluated
  at one record line delivered by two reads (\<open>cafe_cut\<close>): the bytes are those of
  \<open>cafe_bytes\<close>, which decode to the line whose JSON is a record with content
  \<^verbatim>\<open>caf\<close> followed by U+00E9 and no stop reason, and the call makes one
  \<^verbatim>\<open>onChunk\<close> call and resolves with \<^verbatim>\<open>caf\<close> followed by two U+FFFD.
\<close>

theorem character_cut_by_a_chunk_boundary:
  "concat cafe_cut = cafe_bytes \<and>
   TextDecoder_decode cafe_bytes =
     unlines [js ''data: '' @ js ''{\"choices\":[{\"delta\":{\"content\":\"caf'' @ [0xE9] @
              js ''\"},\"index\":0,\"finish_reason\":null}]}''] \<and>
   Option.bind
     (parse_json (js ''{\"choices\":[{\"delta\":{\"content\":\"caf'' @ [0xE9] @
                  js ''\"},\"index\":0,\"finish_reason\":null}]}''))
     record_fields = Some (js ''caf'' @ [0xE9], False) \<and>
   getChatCompletion (browser (ok_response cafe_cut Done)) [] record_chunk [] no_options =
     ([js ''caf'' @ [0xFFFD, 0xFFFD]], Inr (js ''caf'' @ [0xFFFD, 0xFFFD]))"
proof -
  have line: "TextDecoder_decode cafe_bytes =
     unlines [js ''data: '' @ js ''{\"choices\":[{\"delta\":{\"content\":\"caf'' @ [0xE9] @
              js ''\"},\"index\":0,\"finish_reason\":null}]}'']"
    using cafe_text by (simp add: js_def)
  have run: "getChatCompletion (browser (ok_response cafe_cut Done)) [] record_chunk [] no_options =
     ([js ''caf'' @ [0xFFFD, 0xFFFD]], Inr (js ''caf'' @ [0xFFFD, 0xFFFD]))"
    by (simp add: cafe_run [OF cafe_cut_text] record_chunk_def)
  show ?thesis
    using cafe_cut_bytes line cafe_fields run by blast
qed

subsection \<open>C2: the sentinel line\<close>

text \<open>
  Claim C2 says that nothing after a line \<^verbatim>\<open>data: [DONE]\<close> is processed. The code
  \<^verbatim>\<open>continue\<close>s on the sentinel as it does on a blank line: a record that follows it
  in the same chunk is processed, reaches the text and triggers a callback, while the
  stream that ends with the sentinel gives the empty text and no callback.
\<close>

theorem lines_after_sentinel_are_processed:
  "getChatCompletion (browser (ok_response [wire after_done_lines] Done)) []
     record_chunk [] no_options = ([js ''late''], Inr (js ''late'')) \<and>
   getChatCompletion (browser (ok_response [wire [''data: [DONE]'']] Done)) []
     record_chunk [] no_options = ([], Inr [])"
  by (simp add: after_done_run only_done_run record_chunk_def)

text \<open>
  Claim C2, amended. A line that is the sentinel once trimmed is skipped: it leaves the
  state of the loop as it was (no text, no callback), and the lines after it are processed
  as usual, so that the outcome is the one of the stream without the sentinel line. The loop
  ends only when the reader reports done or a read is rejected.
\<close>

theorem sentinel_line_is_skipped:
  assumes "answers e messages options r" and "res_ok r" and "res_body r = Some b"
    and "stream_text e b = unlines (before @ [d] @ after)"
    and "\<forall>l \<in> set (before @ after). 0x0A \<notin> set l"
    and "sentinel_line d"
  shows "process_line e onChunk st d = st \<and>
         getChatCompletion e messages onChunk s options =
           (case ending b of
              Done \<Rightarrow>
                send_remaining onChunk
                  (foldl (process_line e onChunk) (initial s) (before @ after))
            | Rejects x \<Rightarrow>
                (caller (foldl (process_line e onChunk) (initial s) (before @ after)),
                 Inl (Thrown x)))"
proof -
  have nl: "\<forall>l \<in> set (before @ [d] @ after). 0x0A \<notin> set l"
    using assms(5,6) by (auto simp: sentinel_line_def)
  show ?thesis
    using getChatCompletion_lines [OF assms(1-4) nl, of onChunk s]
    by (simp add: sentinel_line_skipped [OF assms(6)] split: read_end.splits)
qed

theorem sentinel_line_is_skipped_witness:
  "sentinel_line (js ''data: [DONE]'') \<and>
   stream_text (browser (ok_response [wire after_done_lines] Done))
     \<lparr>chunks = [wire after_done_lines], ending = Done\<rparr> =
     unlines ([] @ [js ''data: [DONE]''] @ [js (record_line ''late'' ''null'')]) \<and>
   getChatCompletion (browser (ok_response [wire after_done_lines] Done)) []
     record_chunk [] no_options = ([js ''late''], Inr (js ''late''))"
proof -
  let ?cs = "[wire after_done_lines]"
  let ?r = "ok_response ?cs Done"
  let ?b = "\<lparr>chunks = ?cs, ending = Done\<rparr>"
  have h2: "res_ok ?r" and h3: "res_body ?r = Some ?b" by (simp_all add: ok_response_def)
  have h4: "stream_text (browser ?r) ?b =
              unlines ([] @ [js ''data: [DONE]''] @ [js (record_line ''late'' ''null'')])"
    using ascii_stream_text [of ?cs after_done_lines ?r Done]
    by (simp add: after_done_lines_def wire_def line_bytes_def ascii_def record_line_def)
  have h5: "\<forall>l \<in> set ([] @ [js (record_line ''late'' ''null'')]). 0x0A \<notin> set l"
    by (simp add: record_line_def js_def)
  have "getChatCompletion (browser ?r) [] record_chunk [] no_options =
          ([js ''late''], Inr (js ''late''))"
    using sentinel_line_is_skipped [OF answers_browser h2 h3 h4 h5 done_sentinel,
            where onChunk = record_chunk and s = "[]" and st = "initial []"]
    by (simp add: data_line_step [OF late_record] initial_def send_remaining_def record_chunk_def)
  with h4 done_sentinel show ?thesis by simp
qed

subsection \<open>C3: chunking of the bytes\<close>

text \<open>
  Claim C3 says that a byte stream gives the same final text whether it is delivered as a
  single chunk or one byte per chunk. The loop does keep the unfinished line across chunks,
  and the lemmas \<open>chunking_invariance_of_decoded_text\<close> and
  \<open>ascii_chunking_invariance\<close> above show that the outcome depends on the concatenated
  decoded text only, and so not on the chunking of ASCII bytes. But every chunk is decoded on
  its own (\<^verbatim>\<open>decoder.decode(value)\<close> without \<^verbatim>\<open>{stream: true}\<close>), so a UTF-8
  sequence cut by a chunk boundary is decoded as replacement characters. The code evaluated
  at the record with content \<^verbatim>\<open>caf\<close> followed by U+00E9: delivered as one chunk the
  text ends in U+00E9, delivered one byte per chunk it ends in two U+FFFD.
\<close>

theorem split_utf8_sequence_changes_the_text:
  "getChatCompletion (browser (ok_response [cafe_bytes] Done)) [] record_chunk [] no_options =
     ([js ''caf'' @ [0xE9]], Inr (js ''caf'' @ [0xE9])) \<and>
   getChatCompletion (browser (ok_response (bytewise cafe_bytes) Done)) [] record_chunk [] no_options =
     ([js ''caf'' @ [0xFFFD, 0xFFFD]], Inr (js ''caf'' @ [0xFFFD, 0xFFFD])) \<and>
   concat (bytewise cafe_bytes) = cafe_bytes"
proof -
  have one: "concat (map TextDecoder_decode [cafe_bytes]) =
     unlines [js ''data: {\"choices\":[{\"delta\":{\"content\":\"caf'' @ [0xE9] @
              js ''\"},\"index\":0,\"finish_reason\":null}]}'']"
    using cafe_text by simp
  have same: "concat (bytewise bs) = bs" for bs :: "byte list"
    by (induction bs) (simp_all add: bytewise_def)
  show ?thesis
    by (simp add: cafe_run [OF one] cafe_run [OF cafe_bytewise_text] record_chunk_def same)
qed

subsection \<open>C4: threshold 4 and five one-letter fragments\<close>

text \<open>
  Claim C4 says that the second update carries the cumulative text \<^verbatim>\<open>abcde\<close>. The
  callback is given what was flushed since the previous call: the calls carry
  \<^verbatim>\<open>abcd\<close> and \<^verbatim>\<open>e\<close>.
\<close>

theorem threshold_updates_carry_deltas:
  "getChatCompletion (browser (ok_response [wire abcde_lines] Done)) [] record_chunk [] no_options =
     ([js ''abcd'', js ''e''], Inr (js ''abcde'')) \<and>
   fst (getChatCompletion (browser (ok_response [wire abcde_lines] Done)) [] record_chunk []
          no_options) \<noteq> [js ''abcd'', js ''abcde'']"
  by (simp add: abcde_run record_chunk_def) (simp add: js_def)

text \<open>
  Claim C4, amended. For five records with the contents \<^verbatim>\<open>a\<close> to \<^verbatim>\<open>e\<close> and no
  stop reason, \<^verbatim>\<open>onChunk\<close> is called exactly twice: with \<^verbatim>\<open>abcd\<close> when the pending
  text reaches four code units, and with \<^verbatim>\<open>e\<close> by the flush after the loop; the promise
  resolves with \<^verbatim>\<open>abcde\<close>. A caller that appends the chunks, as \<^verbatim>\<open>sendMessage\<close>
  does, shows \<^verbatim>\<open>abcd\<close> and then \<^verbatim>\<open>abcde\<close>.
\<close>

theorem threshold_flush_then_final_flush:
  assumes "answers e messages options r" and "res_ok r" and "res_body r = Some b"
    and "ending b = Done"
    and "stream_text e b = unlines [l1, l2, l3, l4, l5]"
    and "data_line e l1 = Some (js ''a'', False)" and "data_line e l2 = Some (js ''b'', False)"
    and "data_line e l3 = Some (js ''c'', False)" and "data_line e l4 = Some (js ''d'', False)"
    and "data_line e l5 = Some (js ''e'', False)"
  shows "getChatCompletion e messages onChunk s options =
           (onChunk (js ''e'') (onChunk (js ''abcd'') s), Inr (js ''abcde'')) \<and>
         getChatCompletion e messages show_chunk ([], []) options =
           ((js ''abcde'', [js ''abcd'', js ''abcde'']), Inr (js ''abcde''))"
proof -
  have nl: "\<forall>l \<in> set [l1, l2, l3, l4, l5]. 0x0A \<notin> set l"
    using data_line_prefix [OF assms(6)] data_line_prefix [OF assms(7)]
      data_line_prefix [OF assms(8)] data_line_prefix [OF assms(9)] data_line_prefix [OF assms(10)]
    by simp
  have run: "getChatCompletion e messages f u options =
               (f (js ''e'') (f (js ''abcd'') u), Inr (js ''abcde''))" for f and u :: 'c
    using getChatCompletion_lines [OF assms(1-3) assms(5) nl, of f u] assms(4)
    by (simp add: five_fragments [OF assms(6-10)])
  show ?thesis
    by (simp add: run show_chunk_def) (simp add: js_def)
qed

theorem threshold_flush_then_final_flush_witness:
  "stream_text (browser (ok_response [wire abcde_lines] Done))
     \<lparr>chunks = [wire abcde_lines], ending = Done\<rparr> =
     unlines [js (record_line ''a'' ''null''), js (record_line ''b'' ''null''),
              js (record_line ''c'' ''null''), js (record_line ''d'' ''null''),
              js (record_line ''e'' ''null'')] \<and>
   data_line (browser (ok_response [wire abcde_lines] Done)) (js (record_line ''a'' ''null'')) =
     Some (js ''a'', False) \<and>
   data_line (browser (ok_response [wire abcde_lines] Done)) (js (record_line ''e'' ''null'')) =
     Some (js ''e'', False) \<and>
   getChatCompletion (browser (ok_response [wire abcde_lines] Done)) [] record_chunk [] no_options =
     ([js ''abcd'', js ''e''], Inr (js ''abcde'')) \<and>
   getChatCompletion (browser (ok_response [wire abcde_lines] Done)) [] show_chunk ([], []) no_options =
     ((js ''abcde'', [js ''abcd'', js ''abcde'']), Inr (js ''abcde''))"
proof -
  let ?cs = "[wire abcde_lines]"
  let ?r = "ok_response ?cs Done"
  let ?b = "\<lparr>chunks = ?cs, ending = Done\<rparr>"
  have h2: "res_ok ?r" and h3: "res_body ?r = Some ?b" by (simp_all add: ok_response_def)
  have h4: "ending ?b = Done" by simp
  have h5: "stream_text (browser ?r) ?b =
     unlines [js (record_line ''a'' ''null''), js (record_line ''b'' ''null''),
              js (record_line ''c'' ''null''), js (record_line ''d'' ''null''),
              js (record_line ''e'' ''null'')]"
    using ascii_stream_text [of ?cs abcde_lines ?r Done]
    by (simp add: abcde_lines_def wire_def line_bytes_def ascii_def record_line_def)
  show ?thesis
    using threshold_flush_then_final_flush [OF answers_browser h2 h3 h4 h5 letter_records,
            where onChunk = record_chunk and s = "[]"]
      h5 letter_records(1) [of ?r] letter_records(5) [of ?r]
    by (simp add: record_chunk_def)
qed

subsection \<open>C5: the end-to-end scenario\<close>

text \<open>
  Claim C5 says that the scenario gives two updates, \<^verbatim>\<open>Hi\<close> and then
  \<^verbatim>\<open>Hi there\<close>. The first record has two code units and no stop reason, so it stays
  pending; there is one call, with \<^verbatim>\<open>Hi there\<close>.
\<close>

theorem end_to_end_has_one_update:
  "getChatCompletion (browser (ok_response [wire hi_there_lines] Done)) [] record_chunk [] no_options =
     ([js ''Hi there''], Inr (js ''Hi there'')) \<and>
   fst (getChatCompletion (browser (ok_response [wire hi_there_lines] Done)) [] record_chunk []
          no_options) \<noteq> [js ''Hi'', js ''Hi there'']"
  by (simp add: hi_there_run record_chunk_def)

text \<open>
  Claim C5, amended. For the three lines of the scenario (content \<^verbatim>\<open>Hi\<close> without stop
  reason, content \<^verbatim>\<open> there\<close> with stop reason, the sentinel) \<^verbatim>\<open>onChunk\<close> is called
  exactly once, with \<^verbatim>\<open>Hi there\<close>, and the promise then resolves, once, with
  \<^verbatim>\<open>Hi there\<close>.
\<close>

theorem end_to_end_scenario:
  assumes "answers e messages options r" and "res_ok r" and "res_body r = Some b"
    and "ending b = Done"
    and "stream_text e b = unlines [l1, l2, l3]"
    and "data_line e l1 = Some (js ''Hi'', False)"
    and "data_line e l2 = Some (js '' there'', True)"
    and "sentinel_line l3"
  shows "getChatCompletion e messages onChunk s options =
           (onChunk (js ''Hi there'') s, Inr (js ''Hi there''))"
proof -
  have nl: "\<forall>l \<in> set [l1, l2, l3]. 0x0A \<notin> set l"
    using data_line_prefix [OF assms(6)] data_line_prefix [OF assms(7)] assms(8)
    by (simp add: sentinel_line_def)
  show ?thesis
    using getChatCompletion_lines [OF assms(1-3) assms(5) nl, of onChunk s] assms(4)
    by (simp add: hi_there_fragments [OF assms(6-8)])
qed

theorem end_to_end_scenario_witness:
  "stream_text (browser (ok_response [wire hi_there_lines] Done))
     \<lparr>chunks = [wire hi_there_lines], ending = Done\<rparr> =
     unlines [js (record_line ''Hi'' ''null''), js (record_line '' there'' ''\"stop\"''),
              js ''data: [DONE]''] \<and>
   data_line (browser (ok_response [wire hi_there_lines] Done)) (js (record_line ''Hi'' ''null'')) =
     Some (js ''Hi'', False) \<and>
   data_line (browser (ok_response [wire hi_there_lines] Done))
     (js (record_line '' there'' ''\"stop\"'')) = Some (js '' there'', True) \<and>
   sentinel_line (js ''data: [DONE]'') \<and>
   getChatCompletion (browser (ok_response [wire hi_there_lines] Done)) [] record_chunk [] no_options =
     ([js ''Hi there''], Inr (js ''Hi there''))"
proof -
  let ?cs = "[wire hi_there_lines]"
  let ?r = "ok_response ?cs Done"
  let ?b = "\<lparr>chunks = ?cs, ending = Done\<rparr>"
  have h2: "res_ok ?r" and h3: "res_body ?r = Some ?b" by (simp_all add: ok_response_def)
  have h4: "ending ?b = Done" by simp
  have h5: "stream_text (browser ?r) ?b =
     unlines [js (record_line ''Hi'' ''null''), js (record_line '' there'' ''\"stop\"''),
              js ''data: [DONE]'']"
    using ascii_stream_text [of ?cs hi_there_lines ?r Done]
    by (simp add: hi_there_lines_def wire_def line_bytes_def ascii_def record_line_def)
  show ?thesis
    using end_to_end_scenario [OF answers_browser h2 h3 h4 h5 Hi_record there_record done_sentinel,
            where onChunk = record_chunk and s = "[]"]
      h5 Hi_record [of ?r] there_record [of ?r] done_sentinel
    by (simp add: record_chunk_def)
qed

subsection \<open>C6: a malformed line is skipped\<close>

text \<open>
  Claim C6. A malformed line is skipped and the stream is not aborted: it leaves the state of
  the loop as it was, and when it stands between two well-formed DataRecord lines, anywhere in
  a stream of lines, the final text holds the two records' contents next to each other, in
  order, with nothing between them, after what the earlier lines gave and before what the later
  lines give.
\<close>

theorem malformed_line_is_skipped:
  assumes "answers e messages options r" and "res_ok r" and "res_body r = Some b"
    and "ending b = Done"
    and "stream_text e b = unlines (before @ [l1, bad, l2] @ after)"
    and "\<forall>l \<in> set (before @ after). 0x0A \<notin> set l"
    and "data_line e l1 = Some (c1, stop1)"
    and "malformed_line e bad"
    and "data_line e l2 = Some (c2, stop2)"
  shows "process_line e onChunk st bad = st \<and>
         snd (getChatCompletion e messages onChunk s options) =
           Inr (concat (map (line_fragment e) before) @ c1 @ c2 @
                concat (map (line_fragment e) after))"
proof -
  have nl: "\<forall>l \<in> set (before @ [l1, bad, l2] @ after). 0x0A \<notin> set l"
    using assms(6) data_line_prefix [OF assms(7)] data_line_prefix [OF assms(9)] assms(8)
    by (auto simp: malformed_line_def)
  have run: "getChatCompletion e messages onChunk s options =
               send_remaining onChunk
                 (foldl (process_line e onChunk) (initial s) (before @ [l1, bad, l2] @ after))"
    using getChatCompletion_lines [OF assms(1-3) assms(5) nl, of onChunk s] assms(4) by simp
  have "snd (getChatCompletion e messages onChunk s options) =
          Inr (concat (map (line_fragment e) (before @ [l1, bad, l2] @ after)))"
    using lines_text [of e onChunk "initial s" "before @ [l1, bad, l2] @ after"]
    by (simp add: run send_remaining_text initial_def)
  then show ?thesis
    by (simp add: data_line_fragment [OF assms(7)] data_line_fragment [OF assms(9)]
          malformed_line_fragment [OF assms(8)] malformed_line_skipped [OF assms(8)])
qed

theorem malformed_line_is_skipped_witness:
  \<open>answers (browser (ok_response [wire garbled_lines] Done)) [] no_options
     (ok_response [wire garbled_lines] Done) \<and>
   res_ok (ok_response [wire garbled_lines] Done) \<and>
   stream_text (browser (ok_response [wire garbled_lines] Done))
     \<lparr>chunks = [wire garbled_lines], ending = Done\<rparr> =
     unlines ([] @ [js (record_line ''Hel'' ''null''), js ''data: {"choices":[{"delta"'',
                    js (record_line ''lo!'' ''null'')] @ []) \<and>
   data_line (browser (ok_response [wire garbled_lines] Done))
     (js (record_line ''Hel'' ''null'')) = Some (js ''Hel'', False) \<and>
   malformed_line (browser (ok_response [wire garbled_lines] Done))
     (js ''data: {"choices":[{"delta"'') \<and>
   data_line (browser (ok_response [wire garbled_lines] Done))
     (js (record_line ''lo!'' ''null'')) = Some (js ''lo!'', False) \<and>
   snd (getChatCompletion (browser (ok_response [wire garbled_lines] Done)) []
          record_chunk [] no_options) = Inr (js ''Hello!'')\<close>
proof -
  let ?cs = "[wire garbled_lines]"
  let ?r = "ok_response ?cs Done"
  let ?b = "\<lparr>chunks = ?cs, ending = Done\<rparr>"
  have h1: "answers (browser ?r) [] no_options ?r" by (rule answers_browser)
  have h2: "res_ok ?r" by (simp add: ok_response_def)
  have h3: "res_body ?r = Some ?b" by (simp add: ok_response_def)
  have h4: "ending ?b = Done" by simp
  have h5: \<open>stream_text (browser ?r) ?b =
              unlines ([] @ [js (record_line ''Hel'' ''null''), js ''data: {"choices":[{"delta"'',
                             js (record_line ''lo!'' ''null'')] @ [])\<close>
    using garbled_text [of ?r Done] by (simp add: garbled_lines_def)
  have h6: "\<forall>l \<in> set ([] @ []). (0x0A :: jchar) \<notin> set l" by simp
  have c: "js ''Hel'' @ js ''lo!'' = js ''Hello!''" by (simp add: js_def)
  show ?thesis
    using malformed_line_is_skipped [OF h1 h2 h3 h4 h5 h6 Hel_record truncated_malformed lo_record,
            where onChunk = record_chunk and s = "[]" and st = "initial []"]
      h1 h2 h5 Hel_record [of ?r] truncated_malformed [of ?r] lo_record [of ?r]
    by (simp add: c)
qed

subsection \<open>C7: a rejected read\<close>

text \<open>
  Claim C7 says that a read error first flushes the pending fragments and then fails with
  the partial text. The outer \<^verbatim>\<open>catch\<close> only logs and throws again: after a record
  with content \<^verbatim>\<open>Hi\<close>, which stays pending, a rejected read gives no callback at all
  and the bare rejection, where the end of the stream would have delivered \<^verbatim>\<open>Hi\<close>.
\<close>

theorem read_error_drops_pending_text:
  "getChatCompletion (browser (ok_response [wire [record_line ''Hi'' ''null'']] Done)) []
     record_chunk [] no_options = ([js ''Hi''], Inr (js ''Hi'')) \<and>
   getChatCompletion
     (browser (ok_response [wire [record_line ''Hi'' ''null'']] (Rejects (js ''network error'')))) []
     record_chunk [] no_options = ([], Inl (Thrown (js ''network error'')))"
  by (simp add: hi_only_run record_chunk_def)

text \<open>
  Claim C7, amended. When a read is rejected, the call rejects with the reason of the
  reader, which carries no text, and makes no callback beyond those of the lines processed
  before: the pending fragments are not flushed. The chunks delivered so far, followed by the
  pending text that is dropped, are the fragments of the complete lines read so far.
\<close>

theorem read_error_rejects_without_flush:
  assumes "answers e messages options r" and "res_ok r" and "res_body r = Some b"
    and "ending b = Rejects x"
  shows "getChatCompletion e messages onChunk s options =
           (caller (foldl (process_line e onChunk) (initial s) (complete_lines (stream_text e b))),
            Inl (Thrown x)) \<and>
         concat (fst (getChatCompletion e messages record_chunk [] options)) @
           accumulatedChunks
             (foldl (process_line e record_chunk) (initial []) (complete_lines (stream_text e b))) =
           concat (map (line_fragment e) (complete_lines (stream_text e b)))"
proof -
  have run: "getChatCompletion e messages f u options =
               (caller (foldl (process_line e f) (initial u) (complete_lines (stream_text e b))),
                Inl (Thrown x))" for f and u :: 'c
    using getChatCompletion_body [OF assms(1-3), of f u] assms(4) by simp
  show ?thesis
    using initial_text [of e record_chunk "[]" "complete_lines (stream_text e b)"]
    by (simp add: run recorded_calls)
qed

theorem read_error_rejects_without_flush_witness:
  "res_ok (ok_response [wire [record_line ''Hi'' ''null'']] (Rejects (js ''network error''))) \<and>
   getChatCompletion
     (browser (ok_response [wire [record_line ''Hi'' ''null'']] (Rejects (js ''network error'')))) []
     record_chunk [] no_options = ([], Inl (Thrown (js ''network error''))) \<and>
   accumulatedChunks
     (foldl (process_line
               (browser (ok_response [wire [record_line ''Hi'' ''null'']] (Rejects (js ''network error''))))
               record_chunk)
        (initial [])
        (complete_lines
           (stream_text
              (browser (ok_response [wire [record_line ''Hi'' ''null'']] (Rejects (js ''network error''))))
              \<lparr>chunks = [wire [record_line ''Hi'' ''null'']], ending = Rejects (js ''network error'')\<rparr>))) =
     js ''Hi''"
proof -
  let ?cs = "[wire [record_line ''Hi'' ''null'']]"
  let ?fin = "Rejects (js ''network error'')"
  let ?r = "ok_response ?cs ?fin"
  let ?b = "\<lparr>chunks = ?cs, ending = ?fin\<rparr>"
  have h2: "res_ok ?r" and h3: "res_body ?r = Some ?b" by (simp_all add: ok_response_def)
  have h4: "ending ?b = ?fin" by simp
  have "stream_text (browser ?r) ?b = unlines (map js [record_line ''Hi'' ''null''])"
    by (rule ascii_stream_text) (simp_all add: wire_def line_bytes_def ascii_def record_line_def)
  moreover have "\<forall>l \<in> set (map js [record_line ''Hi'' ''null'']). 0x0A \<notin> set l"
    by (simp add: record_line_def js_def)
  ultimately have ls: "complete_lines (stream_text (browser ?r) ?b) = [js (record_line ''Hi'' ''null'')]"
    using complete_lines_unlines [of "map js [record_line ''Hi'' ''null'']"] by simp
  show ?thesis
    using read_error_rejects_without_flush [OF answers_browser h2 h3 h4,
            where onChunk = record_chunk and s = "[]"] h2
    by (simp add: ls data_line_step [OF Hi_record] initial_def)
qed

subsection \<open>C8: failures before the stream\<close>

text \<open>
  Claim C8. When the response has a non-success status, or has no readable body, the call
  fails with an error of its own kind (\<open>ResponseNotOk\<close>, \<open>NoResponseBody\<close>) and the
  state of the caller is untouched: \<^verbatim>\<open>onChunk\<close> was not invoked, no text was accumulated.
\<close>

theorem failed_response_before_any_fragment:
  assumes "answers e messages options r" and "\<not> res_ok r \<or> res_body r = None"
  shows "getChatCompletion e messages onChunk s options =
           (s, Inl (if \<not> res_ok r then
                      ResponseNotOk (res_status r) (res_statusText r)
                        (if truthy (res_json r) then res_json r else None)
                    else NoResponseBody))"
proof -
  obtain key where key: "GROQ_API_KEY e = Some key" "key \<noteq> []"
    and fetch: "fetch e (build_request key (merge_options options) messages) = Inr r"
    using assms(1) by (auto simp: answers_def split: option.splits)
  show ?thesis
    using key fetch assms(2) by (auto simp: getChatCompletion_def Let_def)
qed

theorem failed_response_before_any_fragment_witness:
  "answers (browser unauthorized) [] no_options unauthorized \<and>
   \<not> res_ok unauthorized \<and>
   getChatCompletion (browser unauthorized) [] record_chunk [] no_options =
     ([], Inl (ResponseNotOk 401 (js ''Unauthorized'') None)) \<and>
   answers (browser bodiless) [] no_options bodiless \<and>
   res_body bodiless = None \<and>
   getChatCompletion (browser bodiless) [] record_chunk [] no_options = ([], Inl NoResponseBody)"
proof -
  have u: "\<not> res_ok unauthorized" by (simp add: unauthorized_def)
  have b: "res_body bodiless = None" by (simp add: bodiless_def)
  have "getChatCompletion (browser unauthorized) [] record_chunk [] no_options =
          ([], Inl (ResponseNotOk 401 (js ''Unauthorized'') None))"
    using failed_response_before_any_fragment
            [OF answers_browser disjI1 [OF u], where onChunk = record_chunk and s = "[]"]
    by (simp add: unauthorized_def)
  moreover have "getChatCompletion (browser bodiless) [] record_chunk [] no_options =
          ([], Inl NoResponseBody)"
    using failed_response_before_any_fragment
            [OF answers_browser disjI2 [OF b], where onChunk = record_chunk and s = "[]"]
    by (simp add: bodiless_def)
  ultimately show ?thesis using u b answers_browser by blast
qed

subsection \<open>C9: the greeting rule and the message list\<close>

text \<open>
  Claim C9 says that, unless the only message is a greeting, the configured system prompt is
  the content of the system message. Every message of the list, the system message too, goes
  through \<^verbatim>\<open>trim\<close>: a configured prompt with blanks around it is sent without them.
\<close>

theorem configured_prompt_is_sent_trimmed:
  "req_messages (build_request (js ''gsk_test'') (merge_options padded_prompt)
                   [user_says ''What is DNA?'']) =
     [\<lparr>role = System, content = js ''Be brief.''\<rparr>, user_says ''What is DNA?''] \<and>
   cfg_systemPrompt (merge_options padded_prompt) = js '' Be brief. '' \<and>
   js ''Be brief.'' \<noteq> js '' Be brief. '' \<and>
   \<not> isGreeting [user_says ''What is DNA?'']"
  by (simp add: build_request_def apiMessages_def systemMessage_def merge_options_def
        padded_prompt_def user_says_def isGreeting_def greeting_test_def greeting_words_def
        starts_with_ci_def ascii_lower_def trim_def is_js_space_def js_def)

text \<open>
  Claim C9, amended. The message list of the request that \<^verbatim>\<open>getChatCompletion\<close> passes
  to \<^verbatim>\<open>fetch\<close> (see \<open>only_the_built_request_is_sent\<close>) starts with exactly one added
  system message, followed by the caller's messages in order with their content trimmed. When the list has exactly one message and its
  content starts, ASCII case ignored, with \<^verbatim>\<open>hi\<close>, \<^verbatim>\<open>hello\<close>, \<^verbatim>\<open>hey\<close>,
  \<^verbatim>\<open>greetings\<close> or \<^verbatim>\<open>sup\<close>, the system message reads
  \<^verbatim>\<open>Respond with a greeting.\<close>; otherwise it is the configured system prompt, trimmed
  like the other messages, which for the default prompt changes nothing.
\<close>

theorem greeting_rule_and_message_list:
  "req_messages (build_request key (merge_options options) messages) =
     \<lparr>role = System,
      content =
        (if length messages = 1 \<and>
            (\<exists>w \<in> set [js ''hi'', js ''hello'', js ''hey'', js ''greetings'', js ''sup''].
               map ascii_lower (take (length w) (content (hd messages))) = w)
         then js ''Respond with a greeting.''
         else trim (cfg_systemPrompt (merge_options options)))\<rparr> #
     map (\<lambda>msg. \<lparr>role = role msg, content = trim (content msg)\<rparr>) messages \<and>
   (systemPrompt options = None \<longrightarrow>
      trim (cfg_systemPrompt (merge_options options)) = defaultSystemPrompt)"
proof -
  have "systemPrompt options = None \<longrightarrow>
          trim (cfg_systemPrompt (merge_options options)) = defaultSystemPrompt"
    by (simp add: merge_options_def defaultOptions_def trim_default)
  moreover have "req_messages (build_request key (merge_options options) messages) =
     \<lparr>role = System,
      content = (if isGreeting messages then js ''Respond with a greeting.''
                 else trim (cfg_systemPrompt (merge_options options)))\<rparr> #
     map (\<lambda>msg. \<lparr>role = role msg, content = trim (content msg)\<rparr>) messages"
    by (simp add: build_request_def apiMessages_def systemMessage_def trim_greeting)
  ultimately show ?thesis
    unfolding isGreeting_iff by blast
qed

theorem greeting_rule_and_message_list_witness:
  "req_messages (build_request (js ''gsk_test'') (merge_options no_options) [user_says ''Hello  '']) =
     [\<lparr>role = System, content = js ''Respond with a greeting.''\<rparr>, user_says ''Hello''] \<and>
   req_messages (build_request (js ''gsk_test'') (merge_options no_options)
                   [user_says ''What is DNA?'', user_says '' hi'']) =
     [\<lparr>role = System, content = defaultSystemPrompt\<rparr>, user_says ''What is DNA?'',
      user_says ''hi''] \<and>
   systemPrompt no_options = None"
proof -
  have none: "systemPrompt no_options = None" by (simp add: no_options_def)
  have "req_messages (build_request (js ''gsk_test'') (merge_options no_options) [user_says ''Hello  '']) =
     [\<lparr>role = System, content = js ''Respond with a greeting.''\<rparr>, user_says ''Hello'']"
    using greeting_rule_and_message_list [of "js ''gsk_test''" no_options "[user_says ''Hello  '']"]
    by (simp add: user_says_def ascii_lower_def trim_def is_js_space_def js_def)
  moreover have "req_messages (build_request (js ''gsk_test'') (merge_options no_options)
                   [user_says ''What is DNA?'', user_says '' hi'']) =
     [\<lparr>role = System, content = defaultSystemPrompt\<rparr>, user_says ''What is DNA?'',
      user_says ''hi'']"
    using greeting_rule_and_message_list
            [of "js ''gsk_test''" no_options "[user_says ''What is DNA?'', user_says '' hi'']"] none
    by (simp add: user_says_def) (simp add: trim_def is_js_space_def js_def)
  ultimately show ?thesis using none by simp
qed

subsection \<open>C10: the non-streaming variant\<close>

lemma getCompletionSync_streams:
  assumes "answers e messages options r" and "res_ok r" and "res_body r = Some b"
  shows "getCompletionSync e messages options = snd (getChatCompletion e messages onChunk s options) \<and>
   (snd (getChatCompletion e messages record_chunk [] options) = Inr full \<longrightarrow>
      concat (fst (getChatCompletion e messages record_chunk [] options)) = full)"
proof (cases "ending b")
  case Done
  let ?ls = "complete_lines (stream_text e b)"
  have run: "getChatCompletion e messages f u options =
               send_remaining f (foldl (process_line e f) (initial u) ?ls)" for f and u :: 'c
    using getChatCompletion_body [OF assms, of f u] Done by simp
  have all: "snd (getChatCompletion e messages f u options) =
          Inr (concat (map (line_fragment e) ?ls))" for f and u :: 'c
    by (simp add: run send_remaining_text initial_text)
  have "fst (getChatCompletion e messages (\<lambda>chunk result. result @ chunk) [] options) =
          concat (map (line_fragment e) ?ls)"
    by (simp add: run send_remaining_appended [OF appended_result] initial_text)
  with all [of "\<lambda>chunk result. result @ chunk" "[]"]
  have "getChatCompletion e messages (\<lambda>chunk result. result @ chunk) [] options =
          (concat (map (line_fragment e) ?ls), Inr (concat (map (line_fragment e) ?ls)))"
    by (simp add: prod_eq_iff)
  then have sync: "getCompletionSync e messages options = Inr (concat (map (line_fragment e) ?ls))"
    by (simp add: getCompletionSync_def)
  have "concat (fst (getChatCompletion e messages record_chunk [] options)) =
          concat (map (line_fragment e) ?ls)"
    by (simp add: run send_remaining_calls [OF recorded_calls] initial_text)
  then show ?thesis using sync all [of onChunk s] all [of record_chunk "[]"] by simp
next
  case (Rejects x)
  let ?ls = "complete_lines (stream_text e b)"
  have run: "getChatCompletion e messages f u options =
               (caller (foldl (process_line e f) (initial u) ?ls), Inl (Thrown x))"
    for f and u :: 'c
    using getChatCompletion_body [OF assms, of f u] Rejects by simp
  show ?thesis
    by (simp add: getCompletionSync_def run)
qed

text \<open>
  Claim C10. \<^verbatim>\<open>getCompletionSync\<close> returns what \<^verbatim>\<open>getChatCompletion\<close> returns on the same
  inputs, whatever callback the latter is given: the same text when it resolves, the same
  error when it rejects. When it resolves, the chunks passed to \<^verbatim>\<open>onChunk\<close>, concatenated
  in call order, are the resolved text.
\<close>

theorem getCompletionSync_returns_resolved_text:
  "getCompletionSync e messages options = snd (getChatCompletion e messages onChunk s options) \<and>
   (snd (getChatCompletion e messages record_chunk [] options) = Inr full \<longrightarrow>
      concat (fst (getChatCompletion e messages record_chunk [] options)) = full)"
proof (cases "GROQ_API_KEY e")
  case None
  then show ?thesis by (simp add: getChatCompletion_def getCompletionSync_def)
next
  case (Some key)
  show ?thesis
  proof (cases "key = []")
    case True
    with Some show ?thesis by (simp add: getChatCompletion_def getCompletionSync_def)
  next
    case False
    show ?thesis
    proof (cases "fetch e (build_request key (merge_options options) messages)")
      case (Inl err)
      with Some False show ?thesis
        by (simp add: getChatCompletion_def getCompletionSync_def Let_def)
    next
      case (Inr r)
      with Some False have ans: "answers e messages options r" by (simp add: answers_def)
      show ?thesis
      proof (cases "res_ok r")
        case False
        with Some \<open>key \<noteq> []\<close> Inr show ?thesis
          by (simp add: getChatCompletion_def getCompletionSync_def Let_def)
      next
        case True
        show ?thesis
        proof (cases "res_body r")
          case None
          with Some \<open>key \<noteq> []\<close> Inr True show ?thesis
            by (simp add: getChatCompletion_def getCompletionSync_def Let_def)
        next
          case (Some b)
          from getCompletionSync_streams [OF ans True Some] show ?thesis .
        qed
      qed
    qed
  qed
qed

theorem getCompletionSync_returns_resolved_text_witness:
  "getCompletionSync (browser (ok_response hello_chunks Done)) [] no_options =
     Inr (js ''Hello, world!'') \<and>
   snd (getChatCompletion (browser (ok_response hello_chunks Done)) [] record_chunk [] no_options) =
     Inr (js ''Hello, world!'') \<and>
   fst (getChatCompletion (browser (ok_response hello_chunks Done)) [] record_chunk [] no_options) =
     [js ''Hello, wor'', js ''ld!''] \<and>
   concat (fst (getChatCompletion (browser (ok_response hello_chunks Done)) [] record_chunk []
                  no_options)) = js ''Hello, world!''"
  using getCompletionSync_returns_resolved_text
          [of "browser (ok_response hello_chunks Done)" "[]" no_options record_chunk "[]"
              "js ''Hello, world!''"]
  by (simp add: hello_run record_chunk_def)

end
